theory Spec2Isabelle
  imports Main "HOL-Library.Word"
begin

section \<open>Bitcoin script builders and parsers of the signing core\<close>

text \<open>
  An embedding of \<^verbatim>\<open>core/src/apps/bitcoin/scripts.py\<close>, of the helper
  \<^verbatim>\<open>ecdsa_hash_pubkey\<close> of \<^verbatim>\<open>common.py\<close> and of the coordinator check of
  \<^verbatim>\<open>authorize_coinjoin.py\<close>. A byte is an 8-bit word, a byte string a list of bytes.
  Python integers that may be negative (thresholds, hash types, list indices given by a
  caller) are \<open>int\<close>. Offsets and lengths are \<open>nat\<close>: every offset of the parsers starts
  at 0 or 1 and only grows, so none is ever negative. Every exception is a value of the
  type \<open>error\<close>, returned on the left of a sum.
\<close>

subsection \<open>Bytes, exceptions and Python's sequence operations\<close>

type_synonym byte = "8 word"
type_synonym bytes = "byte list"

datatype error =
    DataError string
  | IndexError
  | ValueError
  | TypeError
  | AssertionError
  | NameError
  | InvalidReference

text \<open>\<open>data[i]\<close> for an offset \<open>i \<ge> 0\<close>: IndexError past the end.\<close>

definition byte_at :: "bytes \<Rightarrow> nat \<Rightarrow> error + byte" where
  "byte_at data i = (if i < length data then Inr (data ! i) else Inl IndexError)"

text \<open>\<open>xs[i]\<close> for any Python integer: a negative index counts from the end.\<close>

definition py_index :: "'a list \<Rightarrow> int \<Rightarrow> error + 'a" where
  "py_index xs i =
     (if 0 \<le> i \<and> i < int (length xs) then Inr (xs ! nat i)
      else if i < 0 \<and> - i \<le> int (length xs) then Inr (xs ! nat (int (length xs) + i))
      else Inl IndexError)"

text \<open>\<open>xs[i] = v\<close>, with the same index rule.\<close>

definition py_setitem :: "'a list \<Rightarrow> int \<Rightarrow> 'a \<Rightarrow> error + 'a list" where
  "py_setitem xs i v =
     (if 0 \<le> i \<and> i < int (length xs) then Inr (xs[nat i := v])
      else if i < 0 \<and> - i \<le> int (length xs) then Inr (xs[nat (int (length xs) + i) := v])
      else Inl IndexError)"

text \<open>\<open>xs[a:b]\<close> for \<open>0 \<le> a\<close>, \<open>0 \<le> b\<close>: a slice never raises, it is cut at the end.\<close>

definition py_slice :: "'a list \<Rightarrow> nat \<Rightarrow> nat \<Rightarrow> 'a list" where
  "py_slice xs a b = take (b - a) (drop a xs)"

text \<open>\<open>w.append(x)\<close> on a bytearray: ValueError unless \<open>x\<close> is in \<open>range(256)\<close>.\<close>

definition bytearray_append :: "bytes \<Rightarrow> int \<Rightarrow> error + bytes" where
  "bytearray_append w x = (if 0 \<le> x \<and> x \<le> 255 then Inr (w @ [word_of_int x]) else Inl ValueError)"

text \<open>A \<open>for\<close> loop over a list whose body may raise: the first exception ends it.\<close>

fun for_each :: "('s \<Rightarrow> 'a \<Rightarrow> error + 's) \<Rightarrow> 'a list \<Rightarrow> 's \<Rightarrow> error + 's" where
  "for_each body [] s = Inr s"
| "for_each body (x # xs) s =
     (case body s x of Inl e \<Rightarrow> Inl e | Inr s' \<Rightarrow> for_each body xs s')"

subsection \<open>Writers\<close>

text \<open>
  Modelled from the spec: \<^verbatim>\<open>empty_bytearray\<close>, \<^verbatim>\<open>write_bitcoin_varint\<close>
  (apps/common/writers.py) and \<^verbatim>\<open>write_op_push\<close>, \<^verbatim>\<open>write_bytes_unchecked\<close>,
  \<^verbatim>\<open>write_bytes_fixed\<close> (apps/bitcoin/writers.py) are imported by scripts.py and are
  not part of the sources at hand. Section 4.A of the specification gives the encodings;
  section 5 says that buffers are allocated empty, sized to their output.
\<close>

text \<open>The \<open>k\<close> low bytes of \<open>n\<close>, least significant first.\<close>

fun le_bytes :: "nat \<Rightarrow> nat \<Rightarrow> bytes" where
  "le_bytes 0 n = []"
| "le_bytes (Suc k) n = word_of_nat n # le_bytes k (n div 256)"

text \<open>Modelled from the spec: a new buffer with room for \<open>preallocate\<close> bytes and no content.\<close>

definition empty_bytearray :: "nat \<Rightarrow> bytes" where
  "empty_bytearray preallocate = []"

text \<open>Modelled from the spec: the append-bytes primitive of a writer.\<close>

definition write_bytes_unchecked :: "bytes \<Rightarrow> bytes \<Rightarrow> bytes" where
  "write_bytes_unchecked w b = w @ b"

text \<open>
  Modelled from the spec: \<open>n<253\<close> gives 1 byte; \<open>n\<le>0xFFFF\<close> gives \<open>0xFD\<close> + LE16;
  \<open>n\<le>0xFFFFFFFF\<close> gives \<open>0xFE\<close> + LE32; else \<open>0xFF\<close> + LE64.
\<close>

definition write_bitcoin_varint :: "bytes \<Rightarrow> nat \<Rightarrow> bytes" where
  "write_bitcoin_varint w n =
     (if n < 253 then w @ [word_of_nat n]
      else if n \<le> 0xFFFF then w @ 0xFD # le_bytes 2 n
      else if n \<le> 0xFFFFFFFF then w @ 0xFE # le_bytes 4 n
      else w @ 0xFF # le_bytes 8 n)"

text \<open>
  Modelled from the spec: \<open>n<0x4C\<close> gives the single byte \<open>n\<close>; \<open>n\<le>0xFF\<close> gives
  \<open>0x4C, n\<close>; \<open>n\<le>0xFFFF\<close> gives \<open>0x4D\<close>, LE16; \<open>n\<le>0xFFFFFFFF\<close> gives \<open>0x4E\<close>, LE32.
  The spec names no opcode for a larger \<open>n\<close>, and no opcode has more than four
  length bytes: the model raises there.
\<close>

definition write_op_push :: "bytes \<Rightarrow> nat \<Rightarrow> error + bytes" where
  "write_op_push w n =
     (if n < 0x4C then Inr (w @ [word_of_nat n])
      else if n \<le> 0xFF then Inr (w @ [0x4C, word_of_nat n])
      else if n \<le> 0xFFFF then Inr (w @ 0x4D # le_bytes 2 n)
      else if n \<le> 0xFFFFFFFF then Inr (w @ 0x4E # le_bytes 4 n)
      else Inl AssertionError)"

subsection \<open>Helpers of scripts.py\<close>

definition write_signature_prefixed :: "bytes \<Rightarrow> bytes \<Rightarrow> int \<Rightarrow> error + bytes" where
  "write_signature_prefixed w signature hash_type =
     bytearray_append
       (write_bytes_unchecked (write_bitcoin_varint w (length signature + 1)) signature)
       hash_type"

definition append_signature :: "bytes \<Rightarrow> bytes \<Rightarrow> int \<Rightarrow> error + bytes" where
  "append_signature w signature hash_type =
     (case write_op_push w (length signature + 1) of
        Inl e \<Rightarrow> Inl e
      | Inr w1 \<Rightarrow> bytearray_append (write_bytes_unchecked w1 signature) hash_type)"

definition append_pubkey :: "bytes \<Rightarrow> bytes \<Rightarrow> error + bytes" where
  "append_pubkey w pubkey =
     (case write_op_push w (length pubkey) of
        Inl e \<Rightarrow> Inl e
      | Inr w1 \<Rightarrow> Inr (write_bytes_unchecked w1 pubkey))"

text \<open>Two and four bytes read least significant first; the first read past the end raises.\<close>

definition read_le16 :: "bytes \<Rightarrow> nat \<Rightarrow> error + nat" where
  "read_le16 data offset =
     (if offset + 1 < length data
      then Inr (unat (data ! offset) + push_bit 8 (unat (data ! (offset + 1))))
      else Inl IndexError)"

definition read_le32 :: "bytes \<Rightarrow> nat \<Rightarrow> error + nat" where
  "read_le32 data offset =
     (if offset + 3 < length data
      then Inr (unat (data ! offset) + push_bit 8 (unat (data ! (offset + 1)))
                + push_bit 16 (unat (data ! (offset + 2))) + push_bit 24 (unat (data ! (offset + 3))))
      else Inl IndexError)"

definition read_bitcoin_varint :: "bytes \<Rightarrow> nat \<Rightarrow> error + (nat \<times> nat)" where
  "read_bitcoin_varint data offset =
     (case byte_at data offset of
        Inl e \<Rightarrow> Inl e
      | Inr prefix \<Rightarrow>
          if prefix < 253 then Inr (unat prefix, offset + 1)
          else if prefix = 253 then
            (case read_le16 data (offset + 1) of Inl e \<Rightarrow> Inl e | Inr n \<Rightarrow> Inr (n, offset + 1 + 2))
          else if prefix = 254 then
            (case read_le32 data (offset + 1) of Inl e \<Rightarrow> Inl e | Inr n \<Rightarrow> Inr (n, offset + 1 + 4))
          else Inl (DataError ''Invalid VarInt''))"

definition read_op_push :: "bytes \<Rightarrow> nat \<Rightarrow> error + (nat \<times> nat)" where
  "read_op_push data offset =
     (case byte_at data offset of
        Inl e \<Rightarrow> Inl e
      | Inr prefix \<Rightarrow>
          if prefix < 0x4C then Inr (unat prefix, offset + 1)
          else if prefix = 0x4C then
            (case byte_at data (offset + 1) of Inl e \<Rightarrow> Inl e | Inr b \<Rightarrow> Inr (unat b, offset + 1 + 1))
          else if prefix = 0x4D then
            (case read_le16 data (offset + 1) of Inl e \<Rightarrow> Inl e | Inr n \<Rightarrow> Inr (n, offset + 1 + 2))
          else if prefix = 0x4E then
            (case read_le32 data (offset + 1) of Inl e \<Rightarrow> Inl e | Inr n \<Rightarrow> Inr (n, offset + 1 + 4))
          else Inl (DataError ''Invalid OP_PUSH''))"

subsection \<open>P2PKH\<close>

definition input_script_p2pkh_or_p2sh :: "bytes \<Rightarrow> bytes \<Rightarrow> int \<Rightarrow> error + bytes" where
  "input_script_p2pkh_or_p2sh pubkey signature hash_type =
     (let w = empty_bytearray (5 + length signature + 1 + 5 + length pubkey) in
      case append_signature w signature hash_type of
        Inl e \<Rightarrow> Inl e
      | Inr w1 \<Rightarrow> append_pubkey w1 pubkey)"

definition read_input_script_p2pkh :: "bytes \<Rightarrow> error + (bytes list \<times> (bytes \<times> int) list)" where
  "read_input_script_p2pkh script_sig =
     (case read_op_push script_sig 0 of
        Inl e \<Rightarrow> Inl e
      | Inr (n, offset) \<Rightarrow>
          let signature = py_slice script_sig offset (offset + n - 1) in
          case byte_at script_sig (offset + n - 1) of
            Inl e \<Rightarrow> Inl e
          | Inr sighash_type \<Rightarrow>
              (case read_op_push script_sig (offset + n) of
                 Inl e \<Rightarrow> Inl e
               | Inr (n', offset') \<Rightarrow>
                   if offset' + n' \<noteq> length script_sig
                   then Inl (DataError ''Invalid scriptSig.'')
                   else Inr ([py_slice script_sig offset' (offset' + n')],
                             [(signature, uint sighash_type)])))"

definition output_script_p2pkh :: "bytes \<Rightarrow> error + bytes" where
  "output_script_p2pkh pubkeyhash =
     (if length pubkeyhash \<noteq> 20 then Inl AssertionError
      else Inr ([0x76, 0xA9, 0x14] @ pubkeyhash @ [0x88, 0xAC]))"

subsection \<open>Bare multisig output script\<close>

definition output_script_multisig_length :: "bytes list \<Rightarrow> int \<Rightarrow> nat" where
  "output_script_multisig_length pubkeys m = 1 + length pubkeys * (1 + 33) + 1 + 1"

definition write_output_script_multisig :: "bytes \<Rightarrow> bytes list \<Rightarrow> int \<Rightarrow> error + bytes" where
  "write_output_script_multisig w pubkeys m =
     (let n = length pubkeys in
      if n < 1 \<or> n > 15 \<or> m < 1 \<or> m > 15 \<or> m > int n
      then Inl (DataError ''Invalid multisig parameters'')
      else if list_ex (\<lambda>pubkey. length pubkey \<noteq> 33) pubkeys
      then Inl (DataError ''Invalid multisig parameters'')
      else
        case bytearray_append w (0x50 + m) of
          Inl e \<Rightarrow> Inl e
        | Inr w1 \<Rightarrow>
            (case for_each append_pubkey pubkeys w1 of
               Inl e \<Rightarrow> Inl e
             | Inr w2 \<Rightarrow>
                 (case bytearray_append w2 (0x50 + int n) of
                    Inl e \<Rightarrow> Inl e
                  | Inr w3 \<Rightarrow> bytearray_append w3 0xAE)))"

definition output_script_multisig :: "bytes list \<Rightarrow> int \<Rightarrow> error + bytes" where
  "output_script_multisig pubkeys m =
     write_output_script_multisig (empty_bytearray (output_script_multisig_length pubkeys m)) pubkeys m"

text \<open>The loop \<open>for i in range(pubkey_count)\<close> of \<open>read_output_script_multisig\<close>.\<close>

fun read_pubkeys :: "bytes \<Rightarrow> nat \<Rightarrow> nat \<Rightarrow> bytes list \<Rightarrow> error + (nat \<times> bytes list)" where
  "read_pubkeys script 0 offset public_keys = Inr (offset, public_keys)"
| "read_pubkeys script (Suc k) offset public_keys =
     (case read_op_push script offset of
        Inl e \<Rightarrow> Inl e
      | Inr (n, offset') \<Rightarrow>
          if n \<noteq> 33 then Inl (DataError ''Invalid multisig script'')
          else read_pubkeys script k (offset' + n)
                 (public_keys @ [py_slice script offset' (offset' + n)]))"

definition read_output_script_multisig :: "bytes \<Rightarrow> error + (bytes list \<times> int)" where
  "read_output_script_multisig script =
     (case py_index script (- 1) of
        Inl e \<Rightarrow> Inl e
      | Inr last_byte \<Rightarrow>
          if last_byte \<noteq> 0xAE then Inl (DataError ''Invalid multisig script'')
          else
            (case py_index script 0 of
               Inl e \<Rightarrow> Inl e
             | Inr first_byte \<Rightarrow>
                 if \<not> (0x51 \<le> first_byte \<and> first_byte < 0x60)
                 then Inl (DataError ''Invalid multisig script'')
                 else
                   (case py_index script (- 2) of
                      Inl e \<Rightarrow> Inl e
                    | Inr count_byte \<Rightarrow>
                        if \<not> (0x51 \<le> count_byte \<and> count_byte < 0x60)
                        then Inl (DataError ''Invalid multisig script'')
                        else
                          let threshold = uint first_byte - 0x50;
                              pubkey_count = uint count_byte - 0x50
                          in
                          if threshold > pubkey_count
                          then Inl (DataError ''Invalid multisig script'')
                          else
                            (case read_pubkeys script (nat pubkey_count) 1 [] of
                               Inl e \<Rightarrow> Inl e
                             | Inr (offset, public_keys) \<Rightarrow>
                                 if offset + 2 \<noteq> length script
                                 then Inl (DataError ''Invalid multisig script'')
                                 else Inr (public_keys, threshold)))))"

subsection \<open>Witness parsers\<close>

definition read_witness_p2wpkh :: "bytes \<Rightarrow> error + (bytes list \<times> (bytes \<times> int) list)" where
  "read_witness_p2wpkh witness =
     (case byte_at witness 0 of
        Inl e \<Rightarrow> Inl e
      | Inr item_count \<Rightarrow>
          if item_count \<noteq> 2 then Inl (DataError ''Invalid witness.'')
          else
            (case read_bitcoin_varint witness 1 of
               Inl e \<Rightarrow> Inl e
             | Inr (n, offset) \<Rightarrow>
                 let signature = py_slice witness offset (offset + n - 1) in
                 case byte_at witness (offset + n - 1) of
                   Inl e \<Rightarrow> Inl e
                 | Inr sighash_type \<Rightarrow>
                     (case read_bitcoin_varint witness (offset + n) of
                        Inl e \<Rightarrow> Inl e
                      | Inr (n', offset') \<Rightarrow>
                          if offset' + n' \<noteq> length witness
                          then Inl (DataError ''Invalid witness.'')
                          else Inr ([py_slice witness offset' (offset' + n')],
                                    [(signature, uint sighash_type)]))))"

text \<open>The loop \<open>for i in range(item_count - 2)\<close> of \<open>read_witness_p2wsh\<close>.\<close>

fun read_signatures ::
  "bytes \<Rightarrow> nat \<Rightarrow> nat \<Rightarrow> (bytes \<times> int) list \<Rightarrow> error + (nat \<times> (bytes \<times> int) list)" where
  "read_signatures witness 0 offset signatures = Inr (offset, signatures)"
| "read_signatures witness (Suc k) offset signatures =
     (case read_bitcoin_varint witness offset of
        Inl e \<Rightarrow> Inl e
      | Inr (n, offset') \<Rightarrow>
          (case byte_at witness (offset' + n - 1) of
             Inl e \<Rightarrow> Inl e
           | Inr sighash_type \<Rightarrow>
               read_signatures witness k (offset' + n)
                 (signatures @ [(py_slice witness offset' (offset' + n - 1), uint sighash_type)])))"

text \<open>
  \<open>range(item_count - 2)\<close> is empty when \<open>item_count < 2\<close>, which is what the
  subtraction on \<open>nat\<close> gives.
\<close>

definition read_witness_p2wsh :: "bytes \<Rightarrow> error + (bytes \<times> (bytes \<times> int) list)" where
  "read_witness_p2wsh witness =
     (case read_bitcoin_varint witness 0 of
        Inl e \<Rightarrow> Inl e
      | Inr (item_count, offset) \<Rightarrow>
          (case byte_at witness offset of
             Inl e \<Rightarrow> Inl e
           | Inr op_false \<Rightarrow>
               if op_false \<noteq> 0 then Inl (DataError ''Invalid witness.'')
               else
                 (case read_signatures witness (item_count - 2) (offset + 1) [] of
                    Inl e \<Rightarrow> Inl e
                  | Inr (offset1, signatures) \<Rightarrow>
                      (case read_bitcoin_varint witness offset1 of
                         Inl e \<Rightarrow> Inl e
                       | Inr (n, offset2) \<Rightarrow>
                           if offset2 + n \<noteq> length witness
                           then Inl (DataError ''Invalid witness.'')
                           else Inr (py_slice witness offset2 (offset2 + n), signatures)))))"

subsection \<open>Multisig scriptSig parser\<close>

text \<open>
  The \<open>while True\<close> loop of \<open>read_input_script_multisig\<close>: it returns the \<open>n\<close> and
  the \<open>offset\<close> of the push at which it breaks, and the signatures read before it.
\<close>

function read_pushes ::
  "bytes \<Rightarrow> nat \<Rightarrow> (bytes \<times> int) list \<Rightarrow> error + (nat \<times> nat \<times> (bytes \<times> int) list)" where
  "read_pushes script_sig offset signatures =
     (case read_op_push script_sig offset of
        Inl e \<Rightarrow> Inl e
      | Inr (n, offset') \<Rightarrow>
          if offset' + n \<ge> length script_sig then Inr (n, offset', signatures)
          else
            (case byte_at script_sig (offset' + n - 1) of
               Inl e \<Rightarrow> Inl e
             | Inr sighash_type \<Rightarrow>
                 read_pushes script_sig (offset' + n)
                   (signatures @ [(py_slice script_sig offset' (offset' + n - 1), uint sighash_type)])))"
  by pat_completeness auto
termination
proof (relation "measure (\<lambda>(script_sig, offset, signatures). length script_sig - offset)")
  show "wf (measure (\<lambda>(script_sig, offset, signatures). length script_sig - offset))"
    by simp
next
  fix script_sig :: bytes and offset :: nat and signatures :: "(bytes \<times> int) list"
    and x2 :: "nat \<times> nat" and x n offset' and sighash_type :: byte
  assume rd: "read_op_push script_sig offset = Inr x2" and x2: "(n, offset') = x2"
    and more: "\<not> length script_sig \<le> offset' + n"
  from rd x2 have "offset < offset'"
    by (auto simp: read_op_push_def byte_at_def read_le16_def read_le32_def
        split: if_splits sum.splits)
  with more show "((script_sig, offset' + n,
       signatures @ [(py_slice script_sig offset' (offset' + n - 1), uint sighash_type)]),
      script_sig, offset, signatures)
    \<in> measure (\<lambda>(script_sig, offset, signatures). length script_sig - offset)"
    by simp
qed

definition read_input_script_multisig :: "bytes \<Rightarrow> error + (bytes \<times> (bytes \<times> int) list)" where
  "read_input_script_multisig script_sig =
     (case byte_at script_sig 0 of
        Inl e \<Rightarrow> Inl e
      | Inr op_false \<Rightarrow>
          if op_false \<noteq> 0 then Inl (DataError ''Invalid witness.'')
          else
            (case read_pushes script_sig 1 [] of
               Inl e \<Rightarrow> Inl e
             | Inr (n, offset, signatures) \<Rightarrow>
                 if offset + n \<noteq> length script_sig
                 then Inl (DataError ''Invalid scriptSig.'')
                 else Inr (py_slice script_sig offset (offset + n), signatures)))"

subsection \<open>The multisig structure and the store of its signature lists\<close>

text \<open>
  \<open>multisig.signatures\<close> is a Python list object: \<open>input_script_multisig\<close> assigns to
  one of its slots, and the caller sees the assignment. The store holds the list objects,
  an address is a position in it, and the multisig structure holds the address of its
  list. A slot is a byte string or \<open>None\<close>. Python has no dangling reference: reading an
  address the store does not hold gives \<open>InvalidReference\<close>, only to keep the model total.
  The \<open>signature_index\<close> of the two builders is a position in the list of public keys,
  as \<open>multisig_pubkey_index\<close> returns it: a \<open>nat\<close>.
\<close>

type_synonym slot = "bytes option"
type_synonym store = "slot list list"

definition store_get :: "store \<Rightarrow> nat \<Rightarrow> error + slot list" where
  "store_get h a = (if a < length h then Inr (h ! a) else Inl InvalidReference)"

text \<open>A new list object: its address is the next free one.\<close>

definition store_new :: "store \<Rightarrow> slot list \<Rightarrow> nat \<times> store" where
  "store_new h xs = (length h, h @ [xs])"

definition store_put :: "store \<Rightarrow> nat \<Rightarrow> slot list \<Rightarrow> store" where
  "store_put h a xs = h[a := xs]"

text \<open>
  Modelled from the spec: \<^verbatim>\<open>MultisigRedeemScriptType\<close> (a message class) and
  \<^verbatim>\<open>multisig_get_pubkeys\<close>, \<^verbatim>\<open>multisig_get_pubkey_count\<close> (apps/bitcoin/multisig.py)
  are not part of the sources at hand. Section 4.D: \<open>pubkeys(ms)\<close> is the list of the
  derived public keys, \<open>pubkey_count(ms)\<close> their number \<open>n\<close>. The key derivation is
  outside this core, so the structure holds the derived keys.
\<close>

record multisig =
  ms_signatures :: nat
  ms_pubkeys :: "bytes list"
  ms_m :: int

text \<open>Modelled from the spec: \<open>pubkeys(ms)\<close>, the list of the derived public keys.\<close>

definition multisig_get_pubkeys :: "multisig \<Rightarrow> bytes list" where
  "multisig_get_pubkeys multisig = ms_pubkeys multisig"

text \<open>Modelled from the spec: \<open>pubkey_count(ms) = n\<close>, the number of public keys.\<close>

definition multisig_get_pubkey_count :: "multisig \<Rightarrow> nat" where
  "multisig_get_pubkey_count multisig = length (ms_pubkeys multisig)"

text \<open>
  Modelled from the spec: \<^verbatim>\<open>CoinInfo\<close> (apps/common/coininfo.py) is not part of the
  sources at hand; these are the two of its fields that the functions below read
  (section 6 of the specification). \<open>utils.BITCOIN_ONLY\<close> is a constant of the build
  and a parameter of \<open>input_script_multisig\<close>.
\<close>

record coininfo =
  decred :: bool
  script_hash :: "bytes \<Rightarrow> bytes"

text \<open>The truth value of a slot: \<open>None\<close> and the empty byte string are false.\<close>

definition truthy :: "slot \<Rightarrow> bool" where
  "truthy s = (case s of None \<Rightarrow> False | Some b \<Rightarrow> b \<noteq> [])"

text \<open>\<open>[s for s in signatures if s]\<close>.\<close>

fun filter_empty :: "slot list \<Rightarrow> bytes list" where
  "filter_empty [] = []"
| "filter_empty (None # signatures) = filter_empty signatures"
| "filter_empty (Some s # signatures) =
     (if s \<noteq> [] then s # filter_empty signatures else filter_empty signatures)"

subsection \<open>P2WSH witness\<close>

text \<open>
  \<open>multisig.signatures + [None] * (multisig_get_pubkey_count(multisig) - len(multisig.signatures))\<close>:
  the other signatures, stretched with \<open>None\<close> to the number of the pubkeys. A list
  times a negative number is empty, as \<open>replicate\<close> of the subtraction on \<open>nat\<close> is.
\<close>

definition stretch_signatures :: "multisig \<Rightarrow> slot list \<Rightarrow> slot list" where
  "stretch_signatures multisig others =
     others @ replicate (multisig_get_pubkey_count multisig - length others) None"

definition witness_p2wsh ::
  "store \<Rightarrow> multisig \<Rightarrow> bytes \<Rightarrow> nat \<Rightarrow> int \<Rightarrow> (error + bytes) \<times> store" where
  "witness_p2wsh h multisig signature signature_index hash_type =
     (case store_get h (ms_signatures multisig) of
        Inl e \<Rightarrow> (Inl e, h)
      | Inr others \<Rightarrow>
          let (signatures_ref, h1) =
                store_new h (stretch_signatures multisig others)
          in
          case store_get h1 signatures_ref of
            Inl e \<Rightarrow> (Inl e, h1)
          | Inr signatures \<Rightarrow>
              (case py_index signatures (int signature_index) of
                 Inl e \<Rightarrow> (Inl e, h1)
               | Inr s \<Rightarrow>
                   if truthy s then (Inl (DataError ''Invalid multisig parameters''), h1)
                   else
                     (case py_setitem signatures (int signature_index) (Some signature) of
                        Inl e \<Rightarrow> (Inl e, h1)
                      | Inr signatures' \<Rightarrow>
                          let h2 = store_put h1 signatures_ref signatures';
                              filtered = filter_empty signatures';
                              num_of_witness_items = 1 + length filtered + 1;
                              pubkeys = multisig_get_pubkeys multisig;
                              redeem_script_length =
                                output_script_multisig_length pubkeys (ms_m multisig);
                              total_length =
                                1 + 1 + (\<Sum>s\<leftarrow>filtered. 1 + length s + 1)
                                  + (1 + redeem_script_length);
                              w = empty_bytearray total_length;
                              w1 = write_bitcoin_varint w num_of_witness_items;
                              w2 = write_bitcoin_varint w1 0
                          in
                          (case for_each (\<lambda>w s. write_signature_prefixed w s hash_type) filtered w2 of
                             Inl e \<Rightarrow> (Inl e, h2)
                           | Inr w3 \<Rightarrow>
                               (write_output_script_multisig
                                  (write_bitcoin_varint w3 redeem_script_length)
                                  pubkeys (ms_m multisig), h2)))))"

subsection \<open>Multisig scriptSig\<close>

text \<open>The body of the loop that adds up \<open>total_length\<close>: \<open>len(None)\<close> is a TypeError.\<close>

definition add_signature_length :: "nat \<Rightarrow> slot \<Rightarrow> error + nat" where
  "add_signature_length total_length s =
     (case s of None \<Rightarrow> Inl TypeError | Some b \<Rightarrow> Inr (total_length + (1 + length b + 1)))"

text \<open>The body of the loop that writes the signatures: an empty one is skipped.\<close>

definition append_nonempty_signature :: "int \<Rightarrow> bytes \<Rightarrow> slot \<Rightarrow> error + bytes" where
  "append_nonempty_signature hash_type w s =
     (case s of
        None \<Rightarrow> Inl TypeError
      | Some b \<Rightarrow> if length b \<noteq> 0 then append_signature w b hash_type else Inr w)"

definition input_script_multisig ::
  "bool \<Rightarrow> store \<Rightarrow> multisig \<Rightarrow> bytes \<Rightarrow> nat \<Rightarrow> int \<Rightarrow> coininfo \<Rightarrow> (error + bytes) \<times> store" where
  "input_script_multisig BITCOIN_ONLY h multisig signature signature_index hash_type coin =
     (case store_get h (ms_signatures multisig) of
        Inl e \<Rightarrow> (Inl e, h)
      | Inr signatures \<Rightarrow>
          (case py_index signatures (int signature_index) of
             Inl e \<Rightarrow> (Inl e, h)
           | Inr None \<Rightarrow> (Inl TypeError, h)
           | Inr (Some s) \<Rightarrow>
               if length s > 0 then (Inl (DataError ''Invalid multisig parameters''), h)
               else
                 (case py_setitem signatures (int signature_index) (Some signature) of
                    Inl e \<Rightarrow> (Inl e, h)
                  | Inr signatures' \<Rightarrow>
                      let h' = store_put h (ms_signatures multisig) signatures';
                          pubkeys = multisig_get_pubkeys multisig;
                          redeem_script_length =
                            output_script_multisig_length pubkeys (ms_m multisig);
                          total_length = (if BITCOIN_ONLY \<or> \<not> decred coin then 0 + 1 else 0)
                      in
                      (case for_each add_signature_length signatures' total_length of
                         Inl e \<Rightarrow> (Inl e, h')
                       | Inr total_length' \<Rightarrow>
                           let w = empty_bytearray (total_length' + (1 + redeem_script_length));
                               w1 = (if BITCOIN_ONLY \<or> \<not> decred coin then w @ [0x00] else w)
                           in
                           (case for_each (append_nonempty_signature hash_type) signatures' w1 of
                              Inl e \<Rightarrow> (Inl e, h')
                            | Inr w2 \<Rightarrow>
                                (case write_op_push w2 redeem_script_length of
                                   Inl e \<Rightarrow> (Inl e, h')
                                 | Inr w3 \<Rightarrow>
                                     (write_output_script_multisig w3 pubkeys (ms_m multisig), h')))))))"

subsection \<open>BIP-143 script code\<close>

text \<open>
  Modelled from the spec: the message classes \<^verbatim>\<open>InputScriptType\<close> and
  \<^verbatim>\<open>TxInputType\<close> are not part of the sources at hand. Section 3 of the
  specification lists the five variants of the script type; \<open>script_type\<close> is the one
  field of an input that the derivation reads.
\<close>

datatype input_script_type =
  SPENDADDRESS | SPENDMULTISIG | EXTERNAL | SPENDWITNESS | SPENDP2SHWITNESS

record tx_input =
  script_type :: input_script_type

text \<open>
  \<open>ensure\<close> of trezor.utils (not part of the sources at hand) raises when its condition
  is false: the AssertionError of the model.
\<close>

definition ecdsa_hash_pubkey :: "bytes \<Rightarrow> coininfo \<Rightarrow> error + bytes" where
  "ecdsa_hash_pubkey pubkey coin =
     (case byte_at pubkey 0 of
        Inl e \<Rightarrow> Inl e
      | Inr first_byte \<Rightarrow>
          if first_byte = 0x04 then
            (if length pubkey = 65 then Inr (script_hash coin pubkey) else Inl AssertionError)
          else if first_byte = 0x00 then
            (if length pubkey = 1 then Inr (script_hash coin pubkey) else Inl AssertionError)
          else
            (if length pubkey = 33 then Inr (script_hash coin pubkey) else Inl AssertionError))"

definition bip143_derive_script_code ::
  "tx_input \<Rightarrow> bytes list \<Rightarrow> int \<Rightarrow> coininfo \<Rightarrow> error + bytes" where
  "bip143_derive_script_code txi public_keys threshold coin =
     (if length public_keys > 1 then output_script_multisig public_keys threshold
      else
        let p2pkh =
              (script_type txi = SPENDWITNESS
               \<or> script_type txi = SPENDP2SHWITNESS
               \<or> script_type txi = SPENDADDRESS
               \<or> script_type txi = EXTERNAL)
        in
        if p2pkh then
          (case py_index public_keys 0 of
             Inl e \<Rightarrow> Inl e
           | Inr pubkey \<Rightarrow>
               (case ecdsa_hash_pubkey pubkey coin of
                  Inl e \<Rightarrow> Inl e
                | Inr pubkeyhash \<Rightarrow> output_script_p2pkh pubkeyhash))
        else Inl (DataError ''Unknown input script type for bip143 script code''))"

subsection \<open>CoinJoin authorization: the coordinator check\<close>

text \<open>
  A Python string is a sequence of code points, here the list of their \<open>ord\<close> values.
  The model is the body of \<open>authorize_coinjoin\<close>, from the point where the decorator
  \<open>with_keychain\<close> has given it the keychain and the coin. The coordinator check is its
  first statement. The steps after the check (path validation, the two prompts, storing
  the authorization) call code outside the sources at hand: \<open>rest\<close> stands for their
  outcome, and it is reached only when the coordinator passes. The module binds the name
  \<open>wire\<close> only under \<open>if False:\<close>, so the statement \<open>raise wire.DataError(...)\<close> of the
  check stops at the evaluation of \<open>wire\<close>: the exception that leaves the function is a
  NameError.
\<close>

definition MAX_COORDINATOR_LEN :: nat where
  "MAX_COORDINATOR_LEN = 18"

definition authorize_coinjoin :: "nat list \<Rightarrow> 'a \<Rightarrow> error + 'a" where
  "authorize_coinjoin coordinator rest =
     (if length coordinator > MAX_COORDINATOR_LEN \<or> list_ex (\<lambda>x. x < 32 \<or> x > 126) coordinator
      then Inl NameError
      else Inr rest)"

text \<open>
  The regular expression of the specification, \<open>^[\x20-\x7E]{1,18}$\<close>, in its own words:
  not empty, at most 18 characters, each in the range 0x20..0x7E.
\<close>

definition matches_coordinator_regex :: "nat list \<Rightarrow> bool" where
  "matches_coordinator_regex coordinator \<longleftrightarrow>
     1 \<le> length coordinator \<and> length coordinator \<le> 18
     \<and> list_all (\<lambda>x. 0x20 \<le> x \<and> x \<le> 0x7E) coordinator"

text \<open>The same expression with the empty string allowed: \<open>^[\x20-\x7E]{0,18}$\<close>.\<close>

definition matches_coordinator_regex_from_0 :: "nat list \<Rightarrow> bool" where
  "matches_coordinator_regex_from_0 coordinator \<longleftrightarrow>
     length coordinator \<le> 18 \<and> list_all (\<lambda>x. 0x20 \<le> x \<and> x \<le> 0x7E) coordinator"

section \<open>Properties\<close>

subsection \<open>Bytes and push headers\<close>

lemma le_bytes_2: "le_bytes 2 n = [word_of_nat n, word_of_nat (n div 256)]"
proof -
  have two: "(2::nat) = Suc (Suc 0)" by simp
  show ?thesis unfolding two by simp
qed

lemma le_bytes_4:
  "le_bytes 4 n = [word_of_nat n, word_of_nat (n div 256),
     word_of_nat (n div 256 div 256), word_of_nat (n div 256 div 256 div 256)]"
proof -
  have four: "(4::nat) = Suc (Suc (Suc (Suc 0)))" by simp
  show ?thesis unfolding four by simp
qed

lemma unat_byte_of_nat: "unat (word_of_nat n :: byte) = n mod 256"
  by (simp add: unat_of_nat)

lemma uint_byte_of_int: "0 \<le> x \<Longrightarrow> x \<le> 255 \<Longrightarrow> uint (word_of_int x :: byte) = x"
  by (simp add: uint_word_of_int_eq take_bit_int_eq_self)

lemma le16_value: "n \<le> 0xFFFF \<Longrightarrow> n mod 256 + push_bit 8 (n div 256 mod 256) = (n::nat)"
  by (simp add: push_bit_eq_mult)

lemma le32_value:
  fixes n :: nat
  assumes "n \<le> 0xFFFFFFFF"
  shows "n mod 256 + push_bit 8 (n div 256 mod 256) + push_bit 16 (n div 256 div 256 mod 256)
    + push_bit 24 (n div 256 div 256 div 256 mod 256) = n"
proof -
  define a where "a = n div 256"
  define b where "b = a div 256"
  define c where "c = b div 256"
  have n: "n = a * 256 + n mod 256" by (simp add: a_def)
  have a: "a = b * 256 + a mod 256" by (simp add: b_def)
  have b: "b = c * 256 + b mod 256" by (simp add: c_def)
  have "c < 256" using assms unfolding a_def b_def c_def by simp
  then have c: "c mod 256 = c" by simp
  have "n mod 256 + (a mod 256) * 256 + (b mod 256) * 65536 + c * 16777216 = n"
    using n a b by linarith
  then show ?thesis
    by (simp add: push_bit_eq_mult c a_def [symmetric] b_def [symmetric] c_def [symmetric])
qed

lemma read_le16_written:
  assumes "n \<le> 0xFFFF" "length pre = off"
  shows "read_le16 (pre @ le_bytes 2 n @ rest) off = Inr n"
proof -
  have "read_le16 (pre @ le_bytes 2 n @ rest) off
      = Inr (unat (word_of_nat n :: byte) + push_bit 8 (unat (word_of_nat (n div 256) :: byte)))"
    using assms(2) by (simp add: read_le16_def le_bytes_2 nth_append)
  also have "\<dots> = Inr n"
    unfolding unat_byte_of_nat using le16_value [OF assms(1)] by simp
  finally show ?thesis .
qed

lemma read_le32_written:
  assumes "n \<le> 0xFFFFFFFF" "length pre = off"
  shows "read_le32 (pre @ le_bytes 4 n @ rest) off = Inr n"
proof -
  have "read_le32 (pre @ le_bytes 4 n @ rest) off
      = Inr (unat (word_of_nat n :: byte) + push_bit 8 (unat (word_of_nat (n div 256) :: byte))
        + push_bit 16 (unat (word_of_nat (n div 256 div 256) :: byte))
        + push_bit 24 (unat (word_of_nat (n div 256 div 256 div 256) :: byte)))"
    using assms(2) by (simp add: read_le32_def le_bytes_4 nth_append)
  also have "\<dots> = Inr n"
    unfolding unat_byte_of_nat by (simp only: le32_value [OF assms(1)])
  finally show ?thesis .
qed

text \<open>What \<open>write_op_push\<close> appends, \<open>read_op_push\<close> reads back, whatever follows it.\<close>

lemma read_op_push_written:
  assumes "write_op_push w n = Inr w'"
  shows "\<exists>hdr. w' = w @ hdr \<and> hdr \<noteq> [] \<and>
           (\<forall>rest. read_op_push (w @ hdr @ rest) (length w) = Inr (n, length w + length hdr))"
proof -
  consider (a) "n < 0x4C" | (b) "0x4C \<le> n" "n \<le> 0xFF" | (c) "0xFF < n" "n \<le> 0xFFFF"
    | (d) "0xFFFF < n" "n \<le> 0xFFFFFFFF" | (e) "0xFFFFFFFF < n"
    by linarith
  then show ?thesis
  proof cases
    case a
    then have lt: "(word_of_nat n :: byte) < 0x4C"
      by (simp add: word_less_nat_alt unat_byte_of_nat)
    from a have "w' = w @ [word_of_nat n]" using assms by (simp add: write_op_push_def)
    moreover have "\<forall>rest. read_op_push (w @ [word_of_nat n] @ rest) (length w) = Inr (n, length w + 1)"
      using a lt by (simp add: read_op_push_def byte_at_def unat_byte_of_nat)
    ultimately show ?thesis by (intro exI [of _ "[word_of_nat n]"]) simp
  next
    case b
    from b have "w' = w @ [0x4C, word_of_nat n]" using assms by (simp add: write_op_push_def)
    moreover have "\<forall>rest. read_op_push (w @ [0x4C, word_of_nat n] @ rest) (length w) = Inr (n, length w + 2)"
      using b by (simp add: read_op_push_def byte_at_def unat_byte_of_nat nth_append)
    ultimately show ?thesis by (intro exI [of _ "[0x4C, word_of_nat n]"]) simp
  next
    case c
    from c have "w' = w @ 0x4D # le_bytes 2 n" using assms by (simp add: write_op_push_def)
    moreover have "\<forall>rest. read_op_push (w @ (0x4D # le_bytes 2 n) @ rest) (length w) = Inr (n, length w + 3)"
      using read_le16_written [OF c(2), of "w @ [0x4D]" "length w + 1"]
      by (simp add: read_op_push_def byte_at_def)
    moreover have "length (le_bytes 2 n) = 2" by (simp add: le_bytes_2)
    ultimately show ?thesis by (intro exI [of _ "0x4D # le_bytes 2 n"]) simp
  next
    case d
    from d have "w' = w @ 0x4E # le_bytes 4 n" using assms by (simp add: write_op_push_def)
    moreover have "\<forall>rest. read_op_push (w @ (0x4E # le_bytes 4 n) @ rest) (length w) = Inr (n, length w + 5)"
      using read_le32_written [OF d(2), of "w @ [0x4E]" "length w + 1"]
      by (simp add: read_op_push_def byte_at_def)
    moreover have "length (le_bytes 4 n) = 4" by (simp add: le_bytes_4)
    ultimately show ?thesis by (intro exI [of _ "0x4E # le_bytes 4 n"]) simp
  next
    case e
    then show ?thesis using assms by (simp add: write_op_push_def)
  qed
qed

lemma write_op_push_defined:
  "n \<le> 0xFFFFFFFF \<Longrightarrow> \<exists>w'. write_op_push w n = Inr w'"
  by (simp add: write_op_push_def)

lemma write_op_push_33: "write_op_push w 33 = Inr (w @ [0x21])"
  by (simp add: write_op_push_def)

lemma read_op_push_single:
  "length pre = off \<Longrightarrow> read_op_push (pre @ 0x21 # rest) off = Inr (33, off + 1)"
  by (auto simp: read_op_push_def byte_at_def nth_append)

lemma py_index_last: "py_index (xs @ [x]) (- 1) = Inr x"
  by (simp add: py_index_def nth_append)

lemma py_index_last2: "py_index (xs @ [y, x]) (- 2) = Inr y"
  by (simp add: py_index_def nth_append)

lemma py_index_first: "py_index (x # xs) 0 = Inr x"
  by (simp add: py_index_def)

subsection \<open>The bare multisig output script\<close>

lemma for_each_append_pubkey:
  "\<forall>pk\<in>set pubkeys. length pk = 33 \<Longrightarrow>
   for_each append_pubkey pubkeys w = Inr (w @ concat (map (\<lambda>pk. 0x21 # pk) pubkeys))"
  by (induction pubkeys arbitrary: w)
     (simp_all add: append_pubkey_def write_op_push_33 write_bytes_unchecked_def)

lemma length_concat_pushes:
  "\<forall>pk\<in>set pubkeys. length pk = 33 \<Longrightarrow>
   length (concat (map (\<lambda>pk. (0x21::byte) # pk) pubkeys)) = length pubkeys * 34"
  by (induction pubkeys) simp_all

lemma write_output_script_multisig_bytes:
  assumes "\<forall>pk\<in>set pubkeys. length pk = 33" "1 \<le> m" "m \<le> int (length pubkeys)"
    "length pubkeys \<le> 15"
  shows "write_output_script_multisig w pubkeys m =
     Inr (w @ word_of_int (0x50 + m) # concat (map (\<lambda>pk. 0x21 # pk) pubkeys)
          @ [word_of_int (0x50 + int (length pubkeys)), 0xAE])"
proof -
  have n: "1 \<le> length pubkeys" "pubkeys \<noteq> []" using assms(2,3) by auto
  have ex: "\<not> list_ex (\<lambda>pubkey. length pubkey \<noteq> 33) pubkeys"
    using assms(1) by (simp add: list_ex_iff)
  show ?thesis
    using assms n ex
    by (simp add: write_output_script_multisig_def bytearray_append_def
        for_each_append_pubkey Let_def)
qed

lemma output_script_multisig_bytes:
  assumes "\<forall>pk\<in>set pubkeys. length pk = 33" "1 \<le> m" "m \<le> int (length pubkeys)"
    "length pubkeys \<le> 15"
  shows "output_script_multisig pubkeys m =
     Inr (word_of_int (0x50 + m) # concat (map (\<lambda>pk. 0x21 # pk) pubkeys)
          @ [word_of_int (0x50 + int (length pubkeys)), 0xAE])"
  using write_output_script_multisig_bytes [OF assms, of "[]"]
  by (simp add: output_script_multisig_def empty_bytearray_def)

lemma read_pubkeys_pushes:
  "\<forall>pk\<in>set pubkeys. length pk = 33 \<Longrightarrow>
   read_pubkeys (pre @ concat (map (\<lambda>pk. 0x21 # pk) pubkeys) @ post) (length pubkeys) (length pre) acc
     = Inr (length pre + length pubkeys * 34, acc @ pubkeys)"
proof (induction pubkeys arbitrary: pre acc)
  case Nil
  then show ?case by simp
next
  case (Cons pk pks)
  have len: "length pk = 33" using Cons.prems by simp
  have rest: "\<forall>pk\<in>set pks. length pk = 33" using Cons.prems by simp
  have sl: "py_slice (pre @ 0x21 # pk @ concat (map (\<lambda>pk. 0x21 # pk) pks) @ post)
              (length pre + 1) (length pre + 1 + 33) = pk"
    using len by (simp add: py_slice_def)
  have step: "read_pubkeys ((pre @ 0x21 # pk) @ concat (map (\<lambda>pk. 0x21 # pk) pks) @ post)
          (length pks) (length (pre @ 0x21 # pk)) (acc @ [pk])
        = Inr (length (pre @ 0x21 # pk) + length pks * 34, (acc @ [pk]) @ pks)"
    by (rule Cons.IH [OF rest])
  show ?case
    using step sl len
    by (simp add: read_op_push_single ac_simps)
qed

text \<open>
  C6: for 33-byte keys and \<open>1 \<le> m \<le> n \<le> 15\<close>, with \<open>n\<close> the number of keys, the bare
  multisig output script is built, its length is \<open>output_script_multisig_length(pubkeys, m)\<close>,
  and that is \<open>1 + n*34 + 1 + 1\<close>.
\<close>

theorem output_script_multisig_length_law:
  assumes "\<forall>pk\<in>set pubkeys. length pk = 33" "1 \<le> m" "m \<le> int (length pubkeys)"
    "length pubkeys \<le> 15"
  shows "\<exists>w. output_script_multisig pubkeys m = Inr w
           \<and> length w = output_script_multisig_length pubkeys m
           \<and> output_script_multisig_length pubkeys m = 1 + length pubkeys * 34 + 1 + 1"
  using assms
  by (simp add: output_script_multisig_bytes length_concat_pushes output_script_multisig_length_def)

theorem output_script_multisig_length_law_witness:
  "\<exists>w. output_script_multisig [0x02 # replicate 32 0xAA, 0x03 # replicate 32 0xBB] 1 = Inr w
       \<and> length w = output_script_multisig_length [0x02 # replicate 32 0xAA, 0x03 # replicate 32 0xBB] 1
       \<and> output_script_multisig_length [0x02 # replicate 32 0xAA, 0x03 # replicate 32 0xBB] 1 = 71"
  using output_script_multisig_length_law
    [of "[0x02 # replicate 32 0xAA, 0x03 # replicate 32 0xBB]" 1]
  by simp

text \<open>
  C2: for 33-byte keys and \<open>1 \<le> m \<le> len(pubkeys) \<le> 15\<close>, the bare multisig output
  script is built and \<open>read_output_script_multisig\<close> returns \<open>(pubkeys, m)\<close> from it.
\<close>

theorem multisig_output_roundtrip:
  assumes "\<forall>pk\<in>set pubkeys. length pk = 33" "1 \<le> m" "m \<le> int (length pubkeys)"
    "length pubkeys \<le> 15"
  shows "\<exists>script. output_script_multisig pubkeys m = Inr script
           \<and> read_output_script_multisig script = Inr (pubkeys, m)"
proof -
  define a :: byte where "a = word_of_int (0x50 + m)"
  define b :: byte where "b = word_of_int (0x50 + int (length pubkeys))"
  define body where "body = concat (map (\<lambda>pk. (0x21::byte) # pk) pubkeys)"
  define script where "script = a # body @ [b, 0xAE]"
  have built: "output_script_multisig pubkeys m = Inr script"
    using assms by (simp add: output_script_multisig_bytes script_def a_def b_def body_def)
  have ua: "uint a = 0x50 + m" unfolding a_def using assms by (intro uint_byte_of_int) auto
  have ub: "uint b = 0x50 + int (length pubkeys)"
    unfolding b_def using assms by (intro uint_byte_of_int) auto
  have ra: "0x51 \<le> a" "a < 0x60" using ua assms by (simp_all add: word_le_def word_less_def)
  have rb: "0x51 \<le> b" "b < 0x60" using ub assms by (simp_all add: word_le_def word_less_def)
  have i1: "py_index script (- 1) = Inr 0xAE"
    using py_index_last [of "a # body @ [b]" "0xAE"] by (simp add: script_def)
  have i2: "py_index script (- 2) = Inr b"
    using py_index_last2 [of "a # body" b "0xAE"] by (simp add: script_def)
  have i0: "py_index script 0 = Inr a"
    by (simp add: script_def py_index_first)
  have loop: "read_pubkeys script (length pubkeys) 1 [] = Inr (1 + length pubkeys * 34, pubkeys)"
    using read_pubkeys_pushes [OF assms(1), of "[a]" "[b, 0xAE]" "[]"]
    by (simp add: script_def body_def)
  have len: "length script = 1 + length pubkeys * 34 + 2"
    using assms(1) by (simp add: script_def body_def length_concat_pushes)
  have "read_output_script_multisig script = Inr (pubkeys, m)"
    using i0 i1 i2 ra rb ua ub loop len assms
    by (simp add: read_output_script_multisig_def Let_def)
  with built show ?thesis by blast
qed

theorem multisig_output_roundtrip_witness:
  "\<exists>script. output_script_multisig [0x02 # replicate 32 0xAA, 0x03 # replicate 32 0xBB] 2 = Inr script
       \<and> read_output_script_multisig script
           = Inr ([0x02 # replicate 32 0xAA, 0x03 # replicate 32 0xBB], 2)"
  using multisig_output_roundtrip [of "[0x02 # replicate 32 0xAA, 0x03 # replicate 32 0xBB]" 2]
  by simp

subsection \<open>The P2PKH scriptSig\<close>

text \<open>
  C1: for every 33-byte pubkey \<open>P\<close>, every signature \<open>S\<close> and every \<open>hash_type\<close> \<open>H\<close> in
  \<open>[0, 255]\<close>, the scriptSig is built and \<open>read_input_script_p2pkh\<close> returns
  \<open>([P], [(S, H)])\<close> from it. The signature is one that \<open>write_op_push\<close> is specified
  for: its push length \<open>len(S) + 1\<close> is at most \<open>0xFFFFFFFF\<close>, the last case of section
  4.A, which holds of every DER signature and of every byte string the device can hold.
\<close>

theorem p2pkh_roundtrip:
  assumes "length P = 33" "length S + 1 \<le> 0xFFFFFFFF" "0 \<le> H" "H \<le> 255"
  shows "\<exists>script. input_script_p2pkh_or_p2sh P S H = Inr script
           \<and> read_input_script_p2pkh script = Inr ([P], [(S, H)])"
proof -
  obtain w1 where w1: "write_op_push [] (length S + 1) = Inr w1"
    using write_op_push_defined [OF assms(2)] by blast
  obtain hdr where hdr: "w1 = hdr" "hdr \<noteq> []"
    and rd: "\<And>rest. read_op_push (hdr @ rest) 0 = Inr (length S + 1, length hdr)"
    using read_op_push_written [OF w1] by auto
  define h :: byte where "h = word_of_int H"
  define script where "script = hdr @ S @ [h] @ 0x21 # P"
  have built: "input_script_p2pkh_or_p2sh P S H = Inr script"
    using w1 hdr(1) assms
    by (simp add: input_script_p2pkh_or_p2sh_def append_signature_def append_pubkey_def
        write_op_push_33 bytearray_append_def write_bytes_unchecked_def
        empty_bytearray_def script_def h_def)
  have r1: "read_op_push script 0 = Inr (length S + 1, length hdr)"
    unfolding script_def by (rule rd)
  have sg: "py_slice script (length hdr) (length hdr + (length S + 1) - 1) = S"
    by (simp add: script_def py_slice_def)
  have hb: "byte_at script (length hdr + (length S + 1) - 1) = Inr h"
    by (simp add: script_def byte_at_def nth_append)
  have r2: "read_op_push script (length hdr + (length S + 1))
              = Inr (33, length hdr + (length S + 1) + 1)"
    using read_op_push_single [of "hdr @ S @ [h]" "length hdr + (length S + 1)" P]
    by (simp add: script_def)
  have len: "length hdr + (length S + 1) + 1 + 33 = length script"
    using assms(1) by (simp add: script_def)
  have pk: "py_slice script (length hdr + (length S + 1) + 1) (length script) = P"
    using assms(1) by (simp add: script_def py_slice_def)
  have uh: "uint h = H" unfolding h_def using assms(3,4) by (rule uint_byte_of_int)
  have "read_input_script_p2pkh script = Inr ([P], [(S, H)])"
    unfolding read_input_script_p2pkh_def
    by (simp only: r1 sum.case prod.case Let_def sg hb r2 len pk uh if_False simp_thms)
  with built show ?thesis by blast
qed

theorem p2pkh_roundtrip_witness:
  "\<exists>script. input_script_p2pkh_or_p2sh (0x02 # replicate 32 0xAA) [0x30, 0x06, 0x02, 0x01] 1 = Inr script
       \<and> read_input_script_p2pkh script
           = Inr ([0x02 # replicate 32 0xAA], [([0x30, 0x06, 0x02, 0x01], 1)])"
  using p2pkh_roundtrip [of "0x02 # replicate 32 0xAA" "[0x30, 0x06, 0x02, 0x01]" 1]
  by simp

subsection \<open>BIP-143 script code\<close>

text \<open>
  C5: with more than one public key, \<open>bip143_derive_script_code\<close> is the bare multisig
  output script of \<open>(public_keys, threshold)\<close>; otherwise, for the script types
  SPENDWITNESS, SPENDP2SHWITNESS, SPENDADDRESS and EXTERNAL it is the P2PKH output script of
  the hash of \<open>public_keys[0]\<close>; otherwise it fails with the unknown-script-type error.
  In the second case, a compressed key with a 20-byte hash gives the 25 bytes
  \<open>76 A9 14 <hash> 88 AC\<close>, and an empty key list gives the IndexError of
  \<open>public_keys[0]\<close>.
\<close>

theorem bip143_derive_script_code_cases:
  "(length public_keys > 1 \<longrightarrow>
      bip143_derive_script_code txi public_keys threshold coin
        = output_script_multisig public_keys threshold)
   \<and> (\<not> length public_keys > 1
        \<and> script_type txi \<in> {SPENDWITNESS, SPENDP2SHWITNESS, SPENDADDRESS, EXTERNAL} \<longrightarrow>
      bip143_derive_script_code txi public_keys threshold coin
        = (case py_index public_keys 0 of
             Inl e \<Rightarrow> Inl e
           | Inr pubkey \<Rightarrow>
               (case ecdsa_hash_pubkey pubkey coin of
                  Inl e \<Rightarrow> Inl e
                | Inr pubkeyhash \<Rightarrow> output_script_p2pkh pubkeyhash)))
   \<and> (\<not> length public_keys > 1
        \<and> script_type txi \<notin> {SPENDWITNESS, SPENDP2SHWITNESS, SPENDADDRESS, EXTERNAL} \<longrightarrow>
      bip143_derive_script_code txi public_keys threshold coin
        = Inl (DataError ''Unknown input script type for bip143 script code''))
   \<and> (public_keys = [pubkey] \<and> length pubkey = 33 \<and> hd pubkey \<noteq> 0x04 \<and> hd pubkey \<noteq> 0x00
        \<and> length (script_hash coin pubkey) = 20
        \<and> script_type txi \<in> {SPENDWITNESS, SPENDP2SHWITNESS, SPENDADDRESS, EXTERNAL} \<longrightarrow>
      bip143_derive_script_code txi public_keys threshold coin
        = Inr ([0x76, 0xA9, 0x14] @ script_hash coin pubkey @ [0x88, 0xAC]))
   \<and> (public_keys = []
        \<and> script_type txi \<in> {SPENDWITNESS, SPENDP2SHWITNESS, SPENDADDRESS, EXTERNAL} \<longrightarrow>
      bip143_derive_script_code txi public_keys threshold coin = Inl IndexError)"
proof (intro conjI impI)
  assume "length public_keys > 1"
  then show "bip143_derive_script_code txi public_keys threshold coin
        = output_script_multisig public_keys threshold"
    by (simp add: bip143_derive_script_code_def)
next
  assume "\<not> length public_keys > 1
        \<and> script_type txi \<in> {SPENDWITNESS, SPENDP2SHWITNESS, SPENDADDRESS, EXTERNAL}"
  then show "bip143_derive_script_code txi public_keys threshold coin
        = (case py_index public_keys 0 of
             Inl e \<Rightarrow> Inl e
           | Inr pubkey \<Rightarrow>
               (case ecdsa_hash_pubkey pubkey coin of
                  Inl e \<Rightarrow> Inl e
                | Inr pubkeyhash \<Rightarrow> output_script_p2pkh pubkeyhash))"
    by (auto simp: bip143_derive_script_code_def)
next
  assume "\<not> length public_keys > 1
        \<and> script_type txi \<notin> {SPENDWITNESS, SPENDP2SHWITNESS, SPENDADDRESS, EXTERNAL}"
  then show "bip143_derive_script_code txi public_keys threshold coin
        = Inl (DataError ''Unknown input script type for bip143 script code'')"
    by (simp add: bip143_derive_script_code_def)
next
  assume a: "public_keys = [pubkey] \<and> length pubkey = 33 \<and> hd pubkey \<noteq> 0x04 \<and> hd pubkey \<noteq> 0x00
        \<and> length (script_hash coin pubkey) = 20
        \<and> script_type txi \<in> {SPENDWITNESS, SPENDP2SHWITNESS, SPENDADDRESS, EXTERNAL}"
  then have "pubkey \<noteq> []" by auto
  then have "byte_at pubkey 0 = Inr (hd pubkey)" by (simp add: byte_at_def hd_conv_nth)
  with a have "ecdsa_hash_pubkey pubkey coin = Inr (script_hash coin pubkey)"
    by (simp add: ecdsa_hash_pubkey_def)
  with a show "bip143_derive_script_code txi public_keys threshold coin
        = Inr ([0x76, 0xA9, 0x14] @ script_hash coin pubkey @ [0x88, 0xAC])"
    by (auto simp: bip143_derive_script_code_def py_index_def output_script_p2pkh_def)
next
  assume "public_keys = []
        \<and> script_type txi \<in> {SPENDWITNESS, SPENDP2SHWITNESS, SPENDADDRESS, EXTERNAL}"
  then show "bip143_derive_script_code txi public_keys threshold coin = Inl IndexError"
    by (auto simp: bip143_derive_script_code_def py_index_def)
qed

theorem bip143_derive_script_code_cases_witness:
  "bip143_derive_script_code \<lparr>script_type = SPENDWITNESS\<rparr> [0x02 # replicate 32 0xAA] 1
       \<lparr>decred = False, script_hash = (\<lambda>b. replicate 20 0x11)\<rparr>
     = Inr ([0x76, 0xA9, 0x14] @ replicate 20 0x11 @ [0x88, 0xAC])
   \<and> bip143_derive_script_code \<lparr>script_type = SPENDMULTISIG\<rparr> [0x02 # replicate 32 0xAA] 1
       \<lparr>decred = False, script_hash = (\<lambda>b. replicate 20 0x11)\<rparr>
     = Inl (DataError ''Unknown input script type for bip143 script code'')
   \<and> bip143_derive_script_code \<lparr>script_type = SPENDMULTISIG\<rparr>
       [0x02 # replicate 32 0xAA, 0x03 # replicate 32 0xBB] 2
       \<lparr>decred = False, script_hash = (\<lambda>b. replicate 20 0x11)\<rparr>
     = output_script_multisig [0x02 # replicate 32 0xAA, 0x03 # replicate 32 0xBB] 2
   \<and> bip143_derive_script_code \<lparr>script_type = EXTERNAL\<rparr> [] 1
       \<lparr>decred = False, script_hash = (\<lambda>b. replicate 20 0x11)\<rparr>
     = Inl IndexError"
  using
    bip143_derive_script_code_cases [where public_keys = "[0x02 # replicate 32 0xAA]"
      and pubkey = "0x02 # replicate 32 0xAA" and txi = "\<lparr>script_type = SPENDWITNESS\<rparr>"
      and threshold = 1 and coin = "\<lparr>decred = False, script_hash = (\<lambda>b. replicate 20 0x11)\<rparr>"]
    bip143_derive_script_code_cases [where public_keys = "[0x02 # replicate 32 0xAA]"
      and txi = "\<lparr>script_type = SPENDMULTISIG\<rparr>"
      and threshold = 1 and coin = "\<lparr>decred = False, script_hash = (\<lambda>b. replicate 20 0x11)\<rparr>"]
    bip143_derive_script_code_cases
      [where public_keys = "[0x02 # replicate 32 0xAA, 0x03 # replicate 32 0xBB]"
      and txi = "\<lparr>script_type = SPENDMULTISIG\<rparr>"
      and threshold = 2 and coin = "\<lparr>decred = False, script_hash = (\<lambda>b. replicate 20 0x11)\<rparr>"]
    bip143_derive_script_code_cases [where public_keys = "[]"
      and txi = "\<lparr>script_type = EXTERNAL\<rparr>"
      and threshold = 1 and coin = "\<lparr>decred = False, script_hash = (\<lambda>b. replicate 20 0x11)\<rparr>"]
  by (simp add: py_index_def ecdsa_hash_pubkey_def byte_at_def output_script_p2pkh_def)

subsection \<open>The coordinator check of authorize_coinjoin\<close>

text \<open>
  C3, as amended: \<open>authorize_coinjoin\<close> passes its coordinator check if and only if the
  coordinator matches \<open>^[\x20-\x7E]{0,18}$\<close>: at most 18 characters, each in the range
  0x20..0x7E. A coordinator that does not match ends the function with an exception at
  the check, its first statement, before the path validation and the prompts.
\<close>

theorem authorize_coinjoin_coordinator:
  "(authorize_coinjoin coordinator rest = Inr rest) = matches_coordinator_regex_from_0 coordinator
   \<and> (\<not> matches_coordinator_regex_from_0 coordinator \<longrightarrow>
        isl (authorize_coinjoin coordinator rest))"
  by (auto simp: authorize_coinjoin_def matches_coordinator_regex_from_0_def
      MAX_COORDINATOR_LEN_def list_ex_iff list_all_iff not_less not_le)

theorem authorize_coinjoin_coordinator_witness:
  "authorize_coinjoin (map of_char ''good.coordinator'') () = Inr ()
   \<and> isl (authorize_coinjoin (map of_char ''hello'' @ [1]) ())
   \<and> isl (authorize_coinjoin (map of_char ''CoinJoinCoordinator!!'') ())"
  using authorize_coinjoin_coordinator [of "map of_char ''good.coordinator''" "()"]
    authorize_coinjoin_coordinator [of "map of_char ''hello'' @ [1]" "()"]
    authorize_coinjoin_coordinator [of "map of_char ''CoinJoinCoordinator!!''" "()"]
  by (simp add: matches_coordinator_regex_from_0_def)

text \<open>
  The exception of a rejected coordinator is the NameError of the unbound \<open>wire\<close>, where
  the statement of the source names a DataError.
\<close>

lemma authorize_coinjoin_rejection_is_name_error:
  "authorize_coinjoin (map of_char ''hello'' @ [1]) () = Inl NameError"
  by (simp add: authorize_coinjoin_def MAX_COORDINATOR_LEN_def)

text \<open>
  C3 as stated fails for the empty coordinator: it passes the check and does not match
  \<open>^[\x20-\x7E]{1,18}$\<close>.
\<close>

theorem authorize_coinjoin_coordinator_counterexample:
  "authorize_coinjoin [] () = Inr () \<and> \<not> matches_coordinator_regex []"
  by (simp add: authorize_coinjoin_def matches_coordinator_regex_def)

subsection \<open>The item count of a P2WSH witness\<close>

text \<open>
  C10: when the leading varint of a witness decodes to \<open>N \<le> 2\<close>, the next byte is 0x00 and
  the rest is one varint-prefixed item that ends where the buffer ends, \<open>read_witness_p2wsh\<close>
  returns that item and an empty signature list, whatever \<open>N\<close> is.
\<close>

theorem read_witness_p2wsh_small_item_count:
  assumes "read_bitcoin_varint witness 0 = Inr (N, offset)" "N \<le> 2"
    "byte_at witness offset = Inr 0x00"
    "read_bitcoin_varint witness (offset + 1) = Inr (n, offset2)"
    "offset2 + n = length witness"
  shows "read_witness_p2wsh witness = Inr (py_slice witness offset2 (offset2 + n), [])
         \<and> py_slice witness offset2 (offset2 + n) = drop offset2 witness"
proof
  from assms(2) have "N - 2 = 0" by simp
  then have "read_signatures witness (N - 2) (offset + 1) [] = Inr (offset + 1, [])"
    by simp
  with assms(1,3,4,5)
  show "read_witness_p2wsh witness = Inr (py_slice witness offset2 (offset2 + n), [])"
    by (simp add: read_witness_p2wsh_def)
  from assms(5) show "py_slice witness offset2 (offset2 + n) = drop offset2 witness"
    by (simp add: py_slice_def)
qed

theorem read_witness_p2wsh_small_item_count_witness:
  "read_witness_p2wsh [0x00, 0x00, 0x02, 0x51, 0xAE] = Inr ([0x51, 0xAE], [])
   \<and> read_witness_p2wsh [0x01, 0x00, 0x02, 0x51, 0xAE] = Inr ([0x51, 0xAE], [])
   \<and> read_witness_p2wsh [0x02, 0x00, 0x02, 0x51, 0xAE] = Inr ([0x51, 0xAE], [])"
  using
    read_witness_p2wsh_small_item_count [of "[0x00, 0x00, 0x02, 0x51, 0xAE]" 0 1 2 3]
    read_witness_p2wsh_small_item_count [of "[0x01, 0x00, 0x02, 0x51, 0xAE]" 1 1 2 3]
    read_witness_p2wsh_small_item_count [of "[0x02, 0x00, 0x02, 0x51, 0xAE]" 2 1 2 3]
  by (simp add: read_bitcoin_varint_def byte_at_def py_slice_def)

subsection \<open>Multisig scriptSig and P2WSH witness\<close>

text \<open>Every writer extends the buffer it is given.\<close>

lemma write_bitcoin_varint_append: "write_bitcoin_varint w n = w @ write_bitcoin_varint [] n"
  by (simp add: write_bitcoin_varint_def)

lemma write_op_push_extends: "write_op_push w n = Inr w' \<Longrightarrow> \<exists>ext. w' = w @ ext"
  by (auto simp: write_op_push_def split: if_splits)

lemma bytearray_append_extends: "bytearray_append w x = Inr w' \<Longrightarrow> \<exists>ext. w' = w @ ext"
  by (auto simp: bytearray_append_def split: if_splits)

lemma append_signature_extends: "append_signature w s t = Inr w' \<Longrightarrow> \<exists>ext. w' = w @ ext"
  by (auto simp: append_signature_def write_bytes_unchecked_def
      split: sum.splits dest!: write_op_push_extends bytearray_append_extends)

lemma append_pubkey_extends: "append_pubkey w p = Inr w' \<Longrightarrow> \<exists>ext. w' = w @ ext"
  by (auto simp: append_pubkey_def write_bytes_unchecked_def
      split: sum.splits dest!: write_op_push_extends)

lemma write_signature_prefixed_extends:
  "write_signature_prefixed w s t = Inr w' \<Longrightarrow> \<exists>ext. w' = w @ ext"
  by (auto simp: write_signature_prefixed_def write_bytes_unchecked_def write_bitcoin_varint_def
      dest!: bytearray_append_extends split: if_splits)

lemma append_nonempty_signature_extends:
  "append_nonempty_signature t w s = Inr w' \<Longrightarrow> \<exists>ext. w' = w @ ext"
  by (auto simp: append_nonempty_signature_def split: option.splits if_splits
      dest: append_signature_extends)

lemma for_each_extends:
  assumes "\<And>w x w'. body w x = Inr w' \<Longrightarrow> \<exists>ext. w' = w @ ext"
  shows "for_each body xs w = Inr w' \<Longrightarrow> \<exists>ext. w' = w @ ext"
proof (induction xs arbitrary: w)
  case Nil
  then show ?case by simp
next
  case (Cons x xs)
  from Cons.prems obtain w1 where b: "body w x = Inr w1" and r: "for_each body xs w1 = Inr w'"
    by (auto split: sum.splits)
  from assms [OF b] obtain e1 where "w1 = w @ e1" by blast
  moreover from Cons.IH [OF r] obtain e2 where "w' = w1 @ e2" by blast
  ultimately show ?case by simp
qed

lemma write_output_script_multisig_extends:
  assumes "write_output_script_multisig w pubkeys m = Inr w'"
  shows "\<exists>ext. w' = w @ ext"
proof -
  from assms obtain w1 w2 w3 where
    a: "bytearray_append w (0x50 + m) = Inr w1"
    and b: "for_each append_pubkey pubkeys w1 = Inr w2"
    and c: "bytearray_append w2 (0x50 + int (length pubkeys)) = Inr w3"
    and d: "bytearray_append w3 0xAE = Inr w'"
    by (auto simp: write_output_script_multisig_def Let_def split: if_splits sum.splits)
  from bytearray_append_extends [OF a] obtain e1 where "w1 = w @ e1" by blast
  moreover from b have "\<exists>ext. w2 = w1 @ ext"
    by (rule for_each_extends [rotated]) (rule append_pubkey_extends)
  then obtain e2 where "w2 = w1 @ e2" by blast
  moreover from bytearray_append_extends [OF c] obtain e3 where "w3 = w2 @ e3" by blast
  moreover from bytearray_append_extends [OF d] obtain e4 where "w' = w3 @ e4" by blast
  ultimately show ?thesis by simp
qed

lemma input_script_multisig_success:
  assumes "input_script_multisig BITCOIN_ONLY h multisig signature signature_index hash_type coin
             = (Inr w, h')"
  shows "\<exists>signatures signatures' total w2 w3.
      store_get h (ms_signatures multisig) = Inr signatures
    \<and> py_index signatures (int signature_index) = Inr (Some [])
    \<and> py_setitem signatures (int signature_index) (Some signature) = Inr signatures'
    \<and> h' = store_put h (ms_signatures multisig) signatures'
    \<and> for_each (append_nonempty_signature hash_type) signatures'
          (if BITCOIN_ONLY \<or> \<not> decred coin then empty_bytearray total @ [0x00] else empty_bytearray total)
        = Inr w2
    \<and> write_op_push w2 (output_script_multisig_length (multisig_get_pubkeys multisig) (ms_m multisig)) = Inr w3
    \<and> write_output_script_multisig w3 (multisig_get_pubkeys multisig) (ms_m multisig) = Inr w"
  using assms
  by (auto simp: input_script_multisig_def Let_def split: sum.splits option.splits if_splits)

lemma store_get_new: "store_get (h @ [xs]) (length h) = Inr xs"
  by (simp add: store_get_def)

lemma witness_p2wsh_success:
  assumes "witness_p2wsh h multisig signature signature_index hash_type = (Inr w, h')"
  shows "\<exists>others s signatures' total w3.
      store_get h (ms_signatures multisig) = Inr others
    \<and> py_index (stretch_signatures multisig others) (int signature_index) = Inr s \<and> \<not> truthy s
    \<and> py_setitem (stretch_signatures multisig others) (int signature_index) (Some signature)
        = Inr signatures'
    \<and> h' = store_put (h @ [stretch_signatures multisig others]) (length h) signatures'
    \<and> for_each (\<lambda>w s. write_signature_prefixed w s hash_type) (filter_empty signatures')
          (write_bitcoin_varint
             (write_bitcoin_varint (empty_bytearray total) (1 + length (filter_empty signatures') + 1)) 0)
        = Inr w3
    \<and> write_output_script_multisig
          (write_bitcoin_varint w3
             (output_script_multisig_length (multisig_get_pubkeys multisig) (ms_m multisig)))
          (multisig_get_pubkeys multisig) (ms_m multisig) = Inr w"
  using assms
  by (auto simp: witness_p2wsh_def store_new_def store_get_new Let_def
      split: sum.splits if_splits)

text \<open>Whatever \<open>witness_p2wsh\<close> returns, it has at most added one list to the store.\<close>

lemma witness_p2wsh_store:
  assumes "witness_p2wsh h multisig signature signature_index hash_type = (r, h')"
  shows "h' = h \<or> (\<exists>xs. h' = h @ [xs])"
  using assms
  by (auto simp: witness_p2wsh_def store_new_def store_get_new store_put_def Let_def
      split: sum.splits if_splits)

lemma py_setitem_nat:
  "py_setitem xs (int i) v = Inr ys \<Longrightarrow> i < length xs \<and> ys = xs[i := v]"
  by (auto simp: py_setitem_def split: if_splits)

lemma py_index_nat:
  "py_index xs (int i) = Inr x \<Longrightarrow> i < length xs \<and> x = xs ! i"
  by (auto simp: py_index_def split: if_splits)

lemma store_get_put_same:
  "a < length h \<Longrightarrow> store_get (store_put h a xs) a = Inr xs"
  by (simp add: store_get_def store_put_def)

text \<open>The two builders on a 1-of-1 multisig whose one signature slot is empty.\<close>

lemma one_key_script:
  "write_output_script_multisig w [0x02 # replicate 32 0xAA] 1
     = Inr (w @ [0x51, 0x21, 0x02] @ replicate 32 0xAA @ [0x51, 0xAE])"
  using write_output_script_multisig_bytes [of "[0x02 # replicate 32 0xAA]" 1 w]
  by simp

lemma input_script_multisig_example:
  "input_script_multisig False [[Some []]]
      \<lparr>ms_signatures = 0, ms_pubkeys = [0x02 # replicate 32 0xAA], ms_m = 1\<rparr>
      [0x30, 0x06] 0 1 \<lparr>decred = False, script_hash = (\<lambda>b. replicate 20 0x11)\<rparr>
    = (Inr ([0x00, 0x03, 0x30, 0x06, 0x01, 0x25, 0x51, 0x21, 0x02] @ replicate 32 0xAA @ [0x51, 0xAE]),
       [[Some [0x30, 0x06]]])"
  by (simp add: input_script_multisig_def store_get_def store_put_def py_index_def py_setitem_def
      multisig_get_pubkeys_def output_script_multisig_length_def add_signature_length_def
      append_nonempty_signature_def append_signature_def write_op_push_def bytearray_append_def
      write_bytes_unchecked_def empty_bytearray_def one_key_script Let_def)

lemma witness_p2wsh_example:
  "witness_p2wsh [[Some []]]
      \<lparr>ms_signatures = 0, ms_pubkeys = [0x02 # replicate 32 0xAA], ms_m = 1\<rparr>
      [0x30, 0x06] 0 1
    = (Inr ([0x03, 0x00, 0x03, 0x30, 0x06, 0x01, 0x25, 0x51, 0x21, 0x02] @ replicate 32 0xAA @ [0x51, 0xAE]),
       [[Some []], [Some [0x30, 0x06]]])"
  by (simp add: witness_p2wsh_def store_get_def store_new_def store_put_def py_index_def
      py_setitem_def stretch_signatures_def multisig_get_pubkey_count_def truthy_def
      multisig_get_pubkeys_def output_script_multisig_length_def write_signature_prefixed_def
      write_bitcoin_varint_def bytearray_append_def
      write_bytes_unchecked_def empty_bytearray_def one_key_script Let_def)

text \<open>What \<open>witness_p2wsh\<close> writes after the two leading varints, byte for byte.\<close>

lemma write_signature_prefixed_bytes:
  "write_signature_prefixed w s t = Inr w' \<Longrightarrow>
   w' = w @ write_bitcoin_varint [] (length s + 1) @ s @ [word_of_int t]"
  using write_bitcoin_varint_append [of w "length s + 1"]
  by (auto simp: write_signature_prefixed_def write_bytes_unchecked_def bytearray_append_def
      split: if_splits)

lemma for_each_write_signature_prefixed:
  "for_each (\<lambda>w s. write_signature_prefixed w s t) sigs w = Inr w' \<Longrightarrow>
   w' = w @ concat (map (\<lambda>s. write_bitcoin_varint [] (length s + 1) @ s @ [word_of_int t]) sigs)"
proof (induction sigs arbitrary: w)
  case Nil
  then show ?case by simp
next
  case (Cons s sigs)
  from Cons.prems obtain w1 where a: "write_signature_prefixed w s t = Inr w1"
    and b: "for_each (\<lambda>w s. write_signature_prefixed w s t) sigs w1 = Inr w'"
    by (auto split: sum.splits)
  from write_signature_prefixed_bytes [OF a] Cons.IH [OF b] show ?case by simp
qed

lemma write_output_script_multisig_success:
  assumes "write_output_script_multisig w pubkeys m = Inr w'"
  shows "(\<forall>pk\<in>set pubkeys. length pk = 33) \<and> 1 \<le> m \<and> m \<le> int (length pubkeys)
         \<and> length pubkeys \<le> 15"
  using assms
  by (auto simp: write_output_script_multisig_def Let_def list_ex_iff split: if_splits)

lemma write_output_script_multisig_redeem_script:
  assumes "write_output_script_multisig w pubkeys m = Inr w'"
  shows "\<exists>redeem_script. output_script_multisig pubkeys m = Inr redeem_script
           \<and> length redeem_script = output_script_multisig_length pubkeys m
           \<and> w' = w @ redeem_script"
proof -
  from write_output_script_multisig_success [OF assms]
  have c: "\<forall>pk\<in>set pubkeys. length pk = 33" "1 \<le> m" "m \<le> int (length pubkeys)"
    "length pubkeys \<le> 15" by simp_all
  from assms write_output_script_multisig_bytes [OF c, of w]
  have "w' = w @ word_of_int (0x50 + m) # concat (map (\<lambda>pk. 0x21 # pk) pubkeys)
          @ [word_of_int (0x50 + int (length pubkeys)), 0xAE]" by simp
  with output_script_multisig_bytes [OF c] length_concat_pushes [OF c(1)]
  show ?thesis by (simp add: output_script_multisig_length_def)
qed

text \<open>
  C7: every bare-multisig scriptSig that \<open>input_script_multisig\<close> produces for a
  non-Decred coin begins with the OP_FALSE byte 0x00. Every P2WSH witness that
  \<open>witness_p2wsh\<close> produces is the varint of its item count followed by that many items,
  and it begins with the explicit OP_FALSE: the first item, right after the count, is the
  byte 0x00; the populated signatures follow, each behind the varint of its length, and
  the redeem script behind the varint of its length is the last item.
\<close>

theorem op_false_prefix:
  "(\<not> decred coin
      \<and> input_script_multisig BITCOIN_ONLY h multisig signature signature_index hash_type coin
          = (Inr script_sig, h')
      \<longrightarrow> (\<exists>rest. script_sig = 0x00 # rest))
   \<and> (witness_p2wsh h multisig signature signature_index hash_type = (Inr witness, h'')
      \<longrightarrow> (\<exists>others signatures redeem_script.
             store_get h (ms_signatures multisig) = Inr others
           \<and> signatures
               = filter_empty ((stretch_signatures multisig others)[signature_index := Some signature])
           \<and> output_script_multisig (multisig_get_pubkeys multisig) (ms_m multisig)
               = Inr redeem_script
           \<and> witness
               = write_bitcoin_varint [] (1 + length signatures + 1)
                 @ [0x00]
                 @ concat (map (\<lambda>s. write_bitcoin_varint [] (length s + 1) @ s
                                       @ [word_of_int hash_type]) signatures)
                 @ write_bitcoin_varint [] (length redeem_script)
                 @ redeem_script))"
proof (intro conjI impI)
  assume a: "\<not> decred coin
      \<and> input_script_multisig BITCOIN_ONLY h multisig signature signature_index hash_type coin
          = (Inr script_sig, h')"
  then obtain signatures' total w2 w3 where
    l: "for_each (append_nonempty_signature hash_type) signatures' (empty_bytearray total @ [0x00])
          = Inr w2"
    and p: "write_op_push w2
          (output_script_multisig_length (multisig_get_pubkeys multisig) (ms_m multisig)) = Inr w3"
    and r: "write_output_script_multisig w3 (multisig_get_pubkeys multisig) (ms_m multisig)
          = Inr script_sig"
    using input_script_multisig_success [of BITCOIN_ONLY h multisig signature signature_index
        hash_type coin script_sig h']
    by auto
  from l have "\<exists>ext. w2 = (empty_bytearray total @ [0x00]) @ ext"
    by (rule for_each_extends [rotated]) (rule append_nonempty_signature_extends)
  then obtain e1 where "w2 = 0x00 # e1" by (auto simp: empty_bytearray_def)
  moreover from write_op_push_extends [OF p] obtain e2 where "w3 = w2 @ e2" by blast
  moreover from write_output_script_multisig_extends [OF r] obtain e3 where "script_sig = w3 @ e3"
    by blast
  ultimately show "\<exists>rest. script_sig = 0x00 # rest" by simp
next
  assume "witness_p2wsh h multisig signature signature_index hash_type = (Inr witness, h'')"
  from witness_p2wsh_success [OF this] obtain others s signatures' total w3 where
    g: "store_get h (ms_signatures multisig) = Inr others"
    and st: "py_setitem (stretch_signatures multisig others) (int signature_index) (Some signature)
        = Inr signatures'"
    and l: "for_each (\<lambda>w s. write_signature_prefixed w s hash_type) (filter_empty signatures')
          (write_bitcoin_varint
             (write_bitcoin_varint (empty_bytearray total) (1 + length (filter_empty signatures') + 1)) 0)
        = Inr w3"
    and r: "write_output_script_multisig
          (write_bitcoin_varint w3
             (output_script_multisig_length (multisig_get_pubkeys multisig) (ms_m multisig)))
          (multisig_get_pubkeys multisig) (ms_m multisig) = Inr witness"
    by blast
  define signatures where "signatures = filter_empty signatures'"
  from py_setitem_nat [OF st]
  have sg: "signatures
      = filter_empty ((stretch_signatures multisig others)[signature_index := Some signature])"
    by (simp add: signatures_def)
  have start: "write_bitcoin_varint
      (write_bitcoin_varint (empty_bytearray total) (1 + length signatures + 1)) 0
      = write_bitcoin_varint [] (1 + length signatures + 1) @ [0x00]"
    by (simp add: write_bitcoin_varint_def empty_bytearray_def)
  from for_each_write_signature_prefixed [OF l [folded signatures_def]]
  have w3: "w3 = write_bitcoin_varint [] (1 + length signatures + 1) @ [0x00]
      @ concat (map (\<lambda>s. write_bitcoin_varint [] (length s + 1) @ s
                            @ [word_of_int hash_type]) signatures)"
    unfolding start by simp
  from write_output_script_multisig_redeem_script [OF r] obtain redeem_script where
    o: "output_script_multisig (multisig_get_pubkeys multisig) (ms_m multisig) = Inr redeem_script"
    and len: "length redeem_script
        = output_script_multisig_length (multisig_get_pubkeys multisig) (ms_m multisig)"
    and w: "witness = write_bitcoin_varint w3
             (output_script_multisig_length (multisig_get_pubkeys multisig) (ms_m multisig))
          @ redeem_script"
    by blast
  have "witness = write_bitcoin_varint [] (1 + length signatures + 1)
                 @ [0x00]
                 @ concat (map (\<lambda>s. write_bitcoin_varint [] (length s + 1) @ s
                                       @ [word_of_int hash_type]) signatures)
                 @ write_bitcoin_varint [] (length redeem_script)
                 @ redeem_script"
    unfolding w len
    using write_bitcoin_varint_append [of w3
        "output_script_multisig_length (multisig_get_pubkeys multisig) (ms_m multisig)"]
    by (simp add: w3)
  with g sg o show "\<exists>others signatures redeem_script.
             store_get h (ms_signatures multisig) = Inr others
           \<and> signatures
               = filter_empty ((stretch_signatures multisig others)[signature_index := Some signature])
           \<and> output_script_multisig (multisig_get_pubkeys multisig) (ms_m multisig)
               = Inr redeem_script
           \<and> witness
               = write_bitcoin_varint [] (1 + length signatures + 1)
                 @ [0x00]
                 @ concat (map (\<lambda>s. write_bitcoin_varint [] (length s + 1) @ s
                                       @ [word_of_int hash_type]) signatures)
                 @ write_bitcoin_varint [] (length redeem_script)
                 @ redeem_script"
    by blast
qed

theorem op_false_prefix_witness:
  "input_script_multisig False [[Some []]]
       \<lparr>ms_signatures = 0, ms_pubkeys = [0x02 # replicate 32 0xAA], ms_m = 1\<rparr>
       [0x30, 0x06] 0 1 \<lparr>decred = False, script_hash = (\<lambda>b. replicate 20 0x11)\<rparr>
     = (Inr ([0x00, 0x03, 0x30, 0x06, 0x01, 0x25, 0x51, 0x21, 0x02] @ replicate 32 0xAA @ [0x51, 0xAE]),
        [[Some [0x30, 0x06]]])
   \<and> (\<exists>rest. [0x00, 0x03, 0x30, 0x06, 0x01, 0x25, 0x51, 0x21, 0x02] @ replicate 32 0xAA @ [0x51, 0xAE]
        = (0x00 :: byte) # rest)
   \<and> witness_p2wsh [[Some []]]
       \<lparr>ms_signatures = 0, ms_pubkeys = [0x02 # replicate 32 0xAA], ms_m = 1\<rparr>
       [0x30, 0x06] 0 1
     = (Inr ([0x03, 0x00, 0x03, 0x30, 0x06, 0x01, 0x25, 0x51, 0x21, 0x02] @ replicate 32 0xAA @ [0x51, 0xAE]),
        [[Some []], [Some [0x30, 0x06]]])
   \<and> (\<exists>others signatures redeem_script.
         store_get [[Some []]]
             (ms_signatures \<lparr>ms_signatures = 0, ms_pubkeys = [0x02 # replicate 32 0xAA], ms_m = 1\<rparr>)
           = Inr others
       \<and> signatures
           = filter_empty
               ((stretch_signatures \<lparr>ms_signatures = 0, ms_pubkeys = [0x02 # replicate 32 0xAA], ms_m = 1\<rparr> others)
                  [0 := Some [0x30, 0x06]])
       \<and> output_script_multisig
             (multisig_get_pubkeys \<lparr>ms_signatures = 0, ms_pubkeys = [0x02 # replicate 32 0xAA], ms_m = 1\<rparr>)
             (ms_m \<lparr>ms_signatures = 0, ms_pubkeys = [0x02 # replicate 32 0xAA], ms_m = 1\<rparr>)
           = Inr redeem_script
       \<and> [0x03, 0x00, 0x03, 0x30, 0x06, 0x01, 0x25, 0x51, 0x21, 0x02] @ replicate 32 0xAA @ [0x51, 0xAE]
           = write_bitcoin_varint [] (1 + length signatures + 1)
             @ [0x00]
             @ concat (map (\<lambda>s. write_bitcoin_varint [] (length s + 1) @ s
                                   @ [word_of_int 1]) signatures)
             @ write_bitcoin_varint [] (length redeem_script)
             @ redeem_script)"
proof -
  note t = op_false_prefix [where coin = "\<lparr>decred = False, script_hash = (\<lambda>b. replicate 20 0x11)\<rparr>"
      and BITCOIN_ONLY = False and h = "[[Some []]]"
      and multisig = "\<lparr>ms_signatures = 0, ms_pubkeys = [0x02 # replicate 32 0xAA], ms_m = 1\<rparr>"
      and signature = "[0x30, 0x06]" and signature_index = 0 and hash_type = 1
      and script_sig = "[0x00, 0x03, 0x30, 0x06, 0x01, 0x25, 0x51, 0x21, 0x02] @ replicate 32 0xAA @ [0x51, 0xAE]"
      and h' = "[[Some [0x30, 0x06]]]"
      and witness = "[0x03, 0x00, 0x03, 0x30, 0x06, 0x01, 0x25, 0x51, 0x21, 0x02] @ replicate 32 0xAA @ [0x51, 0xAE]"
      and h'' = "[[Some []], [Some [0x30, 0x06]]]"]
  have d: "\<not> decred \<lparr>decred = False, script_hash = (\<lambda>b. replicate 20 0x11)\<rparr>" by simp
  from t d input_script_multisig_example
  have 1: "\<exists>rest. [0x00, 0x03, 0x30, 0x06, 0x01, 0x25, 0x51, 0x21, 0x02] @ replicate 32 0xAA @ [0x51, 0xAE]
        = (0x00 :: byte) # rest"
    by blast
  from t witness_p2wsh_example
  have 2: "\<exists>others signatures redeem_script.
         store_get [[Some []]]
             (ms_signatures \<lparr>ms_signatures = 0, ms_pubkeys = [0x02 # replicate 32 0xAA], ms_m = 1\<rparr>)
           = Inr others
       \<and> signatures
           = filter_empty
               ((stretch_signatures \<lparr>ms_signatures = 0, ms_pubkeys = [0x02 # replicate 32 0xAA], ms_m = 1\<rparr> others)
                  [0 := Some [0x30, 0x06]])
       \<and> output_script_multisig
             (multisig_get_pubkeys \<lparr>ms_signatures = 0, ms_pubkeys = [0x02 # replicate 32 0xAA], ms_m = 1\<rparr>)
             (ms_m \<lparr>ms_signatures = 0, ms_pubkeys = [0x02 # replicate 32 0xAA], ms_m = 1\<rparr>)
           = Inr redeem_script
       \<and> [0x03, 0x00, 0x03, 0x30, 0x06, 0x01, 0x25, 0x51, 0x21, 0x02] @ replicate 32 0xAA @ [0x51, 0xAE]
           = write_bitcoin_varint [] (1 + length signatures + 1)
             @ [0x00]
             @ concat (map (\<lambda>s. write_bitcoin_varint [] (length s + 1) @ s
                                   @ [word_of_int 1]) signatures)
             @ write_bitcoin_varint [] (length redeem_script)
             @ redeem_script"
    by blast
  from input_script_multisig_example witness_p2wsh_example 1 2 show ?thesis by blast
qed

text \<open>
  C8: when the slot of \<open>multisig.signatures\<close> at the signature index is a non-empty
  signature, \<open>input_script_multisig\<close> and \<open>witness_p2wsh\<close> both raise the DataError
  "Invalid multisig parameters" and produce no script; \<open>input_script_multisig\<close> leaves the
  store as it was, \<open>witness_p2wsh\<close> has only added its stretched copy of the list. Whatever
  a call returns, the only write it has made is the one to the slot at the signature
  index: of the caller's list for \<open>input_script_multisig\<close>, of its own new list for
  \<open>witness_p2wsh\<close>.
\<close>

theorem signature_slot_filled_once:
  "(store_get h (ms_signatures multisig) = Inr signatures
      \<and> py_index signatures (int signature_index) = Inr (Some s) \<and> s \<noteq> []
      \<longrightarrow> input_script_multisig BITCOIN_ONLY h multisig signature signature_index hash_type coin
            = (Inl (DataError ''Invalid multisig parameters''), h)
          \<and> witness_p2wsh h multisig signature signature_index hash_type
            = (Inl (DataError ''Invalid multisig parameters''),
               h @ [stretch_signatures multisig signatures]))
   \<and> (input_script_multisig BITCOIN_ONLY h multisig signature signature_index hash_type coin = (r, h')
      \<longrightarrow> h' = h
          \<or> (\<exists>signatures. store_get h (ms_signatures multisig) = Inr signatures
                \<and> signature_index < length signatures
                \<and> h' = h[ms_signatures multisig := signatures[signature_index := Some signature]]))
   \<and> (witness_p2wsh h multisig signature signature_index hash_type = (r', h'')
      \<longrightarrow> h'' = h
          \<or> (\<exists>others. store_get h (ms_signatures multisig) = Inr others
                \<and> (h'' = h @ [stretch_signatures multisig others]
                    \<or> signature_index < length (stretch_signatures multisig others)
                      \<and> h'' = h @ [(stretch_signatures multisig others)
                                      [signature_index := Some signature]])))"
proof (intro conjI impI)
  assume a: "store_get h (ms_signatures multisig) = Inr signatures
      \<and> py_index signatures (int signature_index) = Inr (Some s) \<and> s \<noteq> []"
  then show "input_script_multisig BITCOIN_ONLY h multisig signature signature_index hash_type coin
            = (Inl (DataError ''Invalid multisig parameters''), h)"
    by (simp add: input_script_multisig_def)
  from a have i: "signature_index < length signatures" "signatures ! signature_index = Some s"
    using py_index_nat by fastforce+
  then have "py_index (stretch_signatures multisig signatures) (int signature_index) = Inr (Some s)"
    by (simp add: py_index_def stretch_signatures_def nth_append)
  with a show "witness_p2wsh h multisig signature signature_index hash_type
            = (Inl (DataError ''Invalid multisig parameters''),
               h @ [stretch_signatures multisig signatures])"
    by (simp add: witness_p2wsh_def store_new_def store_get_new truthy_def)
next
  assume "input_script_multisig BITCOIN_ONLY h multisig signature signature_index hash_type coin = (r, h')"
  then show "h' = h
          \<or> (\<exists>signatures. store_get h (ms_signatures multisig) = Inr signatures
                \<and> signature_index < length signatures
                \<and> h' = h[ms_signatures multisig := signatures[signature_index := Some signature]])"
    by (auto simp: input_script_multisig_def store_put_def Let_def
        split: sum.splits option.splits if_splits dest!: py_setitem_nat)
next
  assume "witness_p2wsh h multisig signature signature_index hash_type = (r', h'')"
  then show "h'' = h
          \<or> (\<exists>others. store_get h (ms_signatures multisig) = Inr others
                \<and> (h'' = h @ [stretch_signatures multisig others]
                    \<or> signature_index < length (stretch_signatures multisig others)
                      \<and> h'' = h @ [(stretch_signatures multisig others)
                                      [signature_index := Some signature]]))"
    by (auto simp: witness_p2wsh_def store_new_def store_get_new store_put_def Let_def
        split: sum.splits if_splits dest!: py_setitem_nat)
qed

theorem signature_slot_filled_once_witness:
  "input_script_multisig False [[Some [0x30]]]
       
       \<lparr>ms_signatures = 0, ms_pubkeys = [0x02 # replicate 32 0xAA], ms_m = 1\<rparr> [0x30, 0x06] 0 1 
       \<lparr>decred = False, script_hash = (\<lambda>b. replicate 20 0x11)\<rparr>
     = (Inl (DataError ''Invalid multisig parameters''), [[Some [0x30]]])
   \<and> witness_p2wsh [[Some [0x30]]]
       
       \<lparr>ms_signatures = 0, ms_pubkeys = [0x02 # replicate 32 0xAA], ms_m = 1\<rparr> [0x30, 0x06] 0 1
     = (Inl (DataError ''Invalid multisig parameters''), [[Some [0x30]], [Some [0x30]]])
   \<and> (\<exists>signatures. store_get [[Some []]] 0 = Inr signatures \<and> 0 < length signatures
         \<and> [[Some [0x30, 0x06]]] = [[Some []]][0 := signatures[0 := Some [0x30, 0x06]]])
   \<and> [[Some []], [Some [0x30, 0x06]]]
       = [[Some []]] @ [(stretch_signatures 
       \<lparr>ms_signatures = 0, ms_pubkeys = [0x02 # replicate 32 0xAA], ms_m = 1\<rparr> [Some []])[0 := Some [0x30, 0x06]]]"
  using
    signature_slot_filled_once [where h = "[[Some [0x30]]]"
      and multisig = "
       \<lparr>ms_signatures = 0, ms_pubkeys = [0x02 # replicate 32 0xAA], ms_m = 1\<rparr>" and signatures = "[Some [0x30]]" and signature_index = 0
      and s = "[0x30]" and BITCOIN_ONLY = False and signature = "[0x30, 0x06]" and hash_type = 1
      and coin = "
       \<lparr>decred = False, script_hash = (\<lambda>b. replicate 20 0x11)\<rparr>"]
    signature_slot_filled_once [where h = "[[Some []]]"
      and multisig = "
       \<lparr>ms_signatures = 0, ms_pubkeys = [0x02 # replicate 32 0xAA], ms_m = 1\<rparr>" and signature_index = 0
      and BITCOIN_ONLY = False and signature = "[0x30, 0x06]" and hash_type = 1
      and coin = "
       \<lparr>decred = False, script_hash = (\<lambda>b. replicate 20 0x11)\<rparr>"
      and r = "Inr ([0x00, 0x03, 0x30, 0x06, 0x01, 0x25, 0x51, 0x21, 0x02] @ replicate 32 0xAA @ [0x51, 0xAE])" and h' = "[[Some [0x30, 0x06]]]"
      and r' = "Inr ([0x03, 0x00, 0x03, 0x30, 0x06, 0x01, 0x25, 0x51, 0x21, 0x02] @ replicate 32 0xAA @ [0x51, 0xAE])" and h'' = "[[Some []], [Some [0x30, 0x06]]]"]
    input_script_multisig_example witness_p2wsh_example
  by (simp add: store_get_def py_index_def stretch_signatures_def multisig_get_pubkey_count_def)

text \<open>
  C9: after a call of \<open>witness_p2wsh\<close>, successful or not, the list
  \<open>multisig.signatures\<close> is what it was before the call, as is every list the store held;
  after a successful \<open>input_script_multisig\<close> it is the list of before with the given
  signature written at the signature index.
\<close>

theorem multisig_signatures_frame:
  "(witness_p2wsh h multisig signature signature_index hash_type = (r, h')
      \<longrightarrow> store_get h' (ms_signatures multisig) = store_get h (ms_signatures multisig)
          \<and> take (length h) h' = h)
   \<and> (input_script_multisig BITCOIN_ONLY h multisig signature signature_index hash_type coin
        = (Inr script_sig, h'')
      \<longrightarrow> (\<exists>signatures. store_get h (ms_signatures multisig) = Inr signatures
             \<and> signature_index < length signatures
             \<and> store_get h'' (ms_signatures multisig)
                 = Inr (signatures[signature_index := Some signature])))"
proof (intro conjI impI)
  assume a: "witness_p2wsh h multisig signature signature_index hash_type = (r, h')"
  from witness_p2wsh_store [OF a] consider "h' = h" | xs where "h' = h @ [xs]" by blast
  then have "store_get h' (ms_signatures multisig) = store_get h (ms_signatures multisig)
      \<and> take (length h) h' = h"
  proof cases
    case 1
    then show ?thesis by simp
  next
    case 2
    from a have "ms_signatures multisig < length h"
      unfolding 2 by (auto simp: witness_p2wsh_def store_get_def split: sum.splits if_splits)
    then show ?thesis unfolding 2 by (simp add: store_get_def nth_append)
  qed
  then show "store_get h' (ms_signatures multisig) = store_get h (ms_signatures multisig)"
    and "take (length h) h' = h"
    by simp_all
next
  assume a: "input_script_multisig BITCOIN_ONLY h multisig signature signature_index hash_type coin
        = (Inr script_sig, h'')"
  from input_script_multisig_success [OF a] obtain signatures signatures' where
    g: "store_get h (ms_signatures multisig) = Inr signatures"
    and s: "py_setitem signatures (int signature_index) (Some signature) = Inr signatures'"
    and h'': "h'' = store_put h (ms_signatures multisig) signatures'"
    by blast
  from g have v: "ms_signatures multisig < length h" by (simp add: store_get_def split: if_splits)
  from py_setitem_nat [OF s] have "signature_index < length signatures"
    "signatures' = signatures[signature_index := Some signature]" by simp_all
  with g v h'' show "\<exists>signatures. store_get h (ms_signatures multisig) = Inr signatures
             \<and> signature_index < length signatures
             \<and> store_get h'' (ms_signatures multisig)
                 = Inr (signatures[signature_index := Some signature])"
    by (simp add: store_get_put_same)
qed

theorem multisig_signatures_frame_witness:
  "witness_p2wsh [[Some []]] 
       \<lparr>ms_signatures = 0, ms_pubkeys = [0x02 # replicate 32 0xAA], ms_m = 1\<rparr> [0x30, 0x06] 0 1
     = (Inr ([0x03, 0x00, 0x03, 0x30, 0x06, 0x01, 0x25, 0x51, 0x21, 0x02] @ replicate 32 0xAA @ [0x51, 0xAE]), [[Some []], [Some [0x30, 0x06]]])
   \<and> store_get [[Some []], [Some [0x30, 0x06]]] 0 = store_get [[Some []]] 0
   \<and> input_script_multisig False [[Some []]] 
       \<lparr>ms_signatures = 0, ms_pubkeys = [0x02 # replicate 32 0xAA], ms_m = 1\<rparr> [0x30, 0x06] 0 1 
       \<lparr>decred = False, script_hash = (\<lambda>b. replicate 20 0x11)\<rparr>
     = (Inr ([0x00, 0x03, 0x30, 0x06, 0x01, 0x25, 0x51, 0x21, 0x02] @ replicate 32 0xAA @ [0x51, 0xAE]), [[Some [0x30, 0x06]]])
   \<and> store_get [[Some [0x30, 0x06]]] 0 = Inr ([Some []][0 := Some [0x30, 0x06]])"
  using
    multisig_signatures_frame [where h = "[[Some []]]"
      and multisig = "
       \<lparr>ms_signatures = 0, ms_pubkeys = [0x02 # replicate 32 0xAA], ms_m = 1\<rparr>" and signature_index = 0
      and BITCOIN_ONLY = False and signature = "[0x30, 0x06]" and hash_type = 1
      and coin = "
       \<lparr>decred = False, script_hash = (\<lambda>b. replicate 20 0x11)\<rparr>"
      and r = "Inr ([0x03, 0x00, 0x03, 0x30, 0x06, 0x01, 0x25, 0x51, 0x21, 0x02] @ replicate 32 0xAA @ [0x51, 0xAE])" and h' = "[[Some []], [Some [0x30, 0x06]]]"
      and script_sig = "[0x00, 0x03, 0x30, 0x06, 0x01, 0x25, 0x51, 0x21, 0x02] @ replicate 32 0xAA @ [0x51, 0xAE]" and h'' = "[[Some [0x30, 0x06]]]"]
    input_script_multisig_example witness_p2wsh_example
  by (simp add: store_get_def)

subsection \<open>Bytes after an accepted input\<close>

lemma byte_at_bound: "byte_at s i = Inr b \<Longrightarrow> i < length s"
  by (simp add: byte_at_def split: if_splits)

lemma read_le16_bound: "read_le16 s off = Inr n \<Longrightarrow> off + 1 < length s"
  by (simp add: read_le16_def split: if_splits)

lemma read_le32_bound: "read_le32 s off = Inr n \<Longrightarrow> off + 3 < length s"
  by (simp add: read_le32_def split: if_splits)

lemma byte_at_append_left: "i < length s \<Longrightarrow> byte_at (s @ t) i = byte_at s i"
  by (simp add: byte_at_def nth_append)

lemma read_le16_append_left: "off + 1 < length s \<Longrightarrow> read_le16 (s @ t) off = read_le16 s off"
  by (simp add: read_le16_def nth_append)

lemma read_le32_append_left: "off + 3 < length s \<Longrightarrow> read_le32 (s @ t) off = read_le32 s off"
  by (simp add: read_le32_def nth_append)

text \<open>A read that succeeds on a buffer gives the same result on every extension of it.\<close>

lemma byte_at_extend: "byte_at s i = Inr b \<Longrightarrow> byte_at (s @ t) i = Inr b"
  using byte_at_append_left [of i s t] byte_at_bound [of s i b] by simp

lemma read_le16_extend: "read_le16 s off = Inr n \<Longrightarrow> read_le16 (s @ t) off = Inr n"
  using read_le16_append_left [of off s t] read_le16_bound [of s off n] by simp

lemma read_le32_extend: "read_le32 s off = Inr n \<Longrightarrow> read_le32 (s @ t) off = Inr n"
  using read_le32_append_left [of off s t] read_le32_bound [of s off n] by simp

lemma case_sum_extend:
  assumes "\<And>v. x = Inr v \<Longrightarrow> x' = Inr v" "(case x of Inl e \<Rightarrow> Inl e | Inr v \<Rightarrow> f v) = Inr r"
  shows "(case x' of Inl e \<Rightarrow> Inl e | Inr v \<Rightarrow> f v) = Inr r"
  using assms by (cases x) auto

lemma read_op_push_extend:
  assumes "read_op_push s off = Inr r"
  shows "read_op_push (s @ t) off = Inr r"
proof -
  from assms obtain p where p: "byte_at s off = Inr p"
    by (cases "byte_at s off") (simp_all add: read_op_push_def)
  note e = byte_at_extend [OF p, of t]
  from assms p have body:
    "(if p < 0x4C then Inr (unat p, off + 1)
      else if p = 0x4C then
        (case byte_at s (off + 1) of Inl e \<Rightarrow> Inl e | Inr b \<Rightarrow> Inr (unat b, off + 1 + 1))
      else if p = 0x4D then
        (case read_le16 s (off + 1) of Inl e \<Rightarrow> Inl e | Inr n \<Rightarrow> Inr (n, off + 1 + 2))
      else if p = 0x4E then
        (case read_le32 s (off + 1) of Inl e \<Rightarrow> Inl e | Inr n \<Rightarrow> Inr (n, off + 1 + 4))
      else Inl (DataError ''Invalid OP_PUSH'')) = Inr r"
    by (simp add: read_op_push_def)
  have "(if p < 0x4C then Inr (unat p, off + 1)
      else if p = 0x4C then
        (case byte_at (s @ t) (off + 1) of Inl e \<Rightarrow> Inl e | Inr b \<Rightarrow> Inr (unat b, off + 1 + 1))
      else if p = 0x4D then
        (case read_le16 (s @ t) (off + 1) of Inl e \<Rightarrow> Inl e | Inr n \<Rightarrow> Inr (n, off + 1 + 2))
      else if p = 0x4E then
        (case read_le32 (s @ t) (off + 1) of Inl e \<Rightarrow> Inl e | Inr n \<Rightarrow> Inr (n, off + 1 + 4))
      else Inl (DataError ''Invalid OP_PUSH'')) = Inr r"
    using body
    by (auto split: if_splits
        intro: case_sum_extend [OF byte_at_extend] case_sum_extend [OF read_le16_extend]
          case_sum_extend [OF read_le32_extend])
  then show ?thesis by (simp add: read_op_push_def e)
qed

lemma read_bitcoin_varint_extend:
  assumes "read_bitcoin_varint s off = Inr r"
  shows "read_bitcoin_varint (s @ t) off = Inr r"
proof -
  from assms obtain p where p: "byte_at s off = Inr p"
    by (cases "byte_at s off") (simp_all add: read_bitcoin_varint_def)
  note e = byte_at_extend [OF p, of t]
  from assms p have body:
    "(if p < 253 then Inr (unat p, off + 1)
      else if p = 253 then
        (case read_le16 s (off + 1) of Inl e \<Rightarrow> Inl e | Inr n \<Rightarrow> Inr (n, off + 1 + 2))
      else if p = 254 then
        (case read_le32 s (off + 1) of Inl e \<Rightarrow> Inl e | Inr n \<Rightarrow> Inr (n, off + 1 + 4))
      else Inl (DataError ''Invalid VarInt'')) = Inr r"
    by (simp add: read_bitcoin_varint_def)
  have "(if p < 253 then Inr (unat p, off + 1)
      else if p = 253 then
        (case read_le16 (s @ t) (off + 1) of Inl e \<Rightarrow> Inl e | Inr n \<Rightarrow> Inr (n, off + 1 + 2))
      else if p = 254 then
        (case read_le32 (s @ t) (off + 1) of Inl e \<Rightarrow> Inl e | Inr n \<Rightarrow> Inr (n, off + 1 + 4))
      else Inl (DataError ''Invalid VarInt'')) = Inr r"
    using body
    by (auto split: if_splits
        intro: case_sum_extend [OF read_le16_extend] case_sum_extend [OF read_le32_extend])
  then show ?thesis by (simp add: read_bitcoin_varint_def e)
qed

lemma read_op_push_bounds:
  assumes "read_op_push s off = Inr (n, off')"
  shows "off < off' \<and> off' \<le> length s"
proof -
  from assms obtain p where p: "byte_at s off = Inr p"
    by (cases "byte_at s off") (simp_all add: read_op_push_def)
  from byte_at_bound [OF p] have "off < length s" .
  with assms p show ?thesis
    by (auto simp: read_op_push_def split: if_splits sum.splits
        dest: byte_at_bound read_le16_bound read_le32_bound)
qed

lemma py_slice_extend: "b \<le> length s \<Longrightarrow> py_slice (s @ t) a b = py_slice s a b"
  by (simp add: py_slice_def)

lemma p2pkh_trailing:
  assumes "read_input_script_p2pkh s = Inr r" "t \<noteq> []"
  shows "read_input_script_p2pkh (s @ t) = Inl (DataError ''Invalid scriptSig.'')"
proof -
  from assms(1) obtain n off h n' off' where
    r1: "read_op_push s 0 = Inr (n, off)"
    and hb: "byte_at s (off + n - 1) = Inr h"
    and r2: "read_op_push s (off + n) = Inr (n', off')"
    and len: "off' + n' = length s"
    by (auto simp: read_input_script_p2pkh_def Let_def split: sum.splits if_splits)
  have ne: "off' + n' \<noteq> length (s @ t)" using len assms(2) by simp
  show ?thesis
    unfolding read_input_script_p2pkh_def
    by (simp only: read_op_push_extend [OF r1] byte_at_extend [OF hb] read_op_push_extend [OF r2]
        Let_def sum.case prod.case ne simp_thms if_True)
qed

lemma p2wpkh_trailing:
  assumes "read_witness_p2wpkh s = Inr r" "t \<noteq> []"
  shows "read_witness_p2wpkh (s @ t) = Inl (DataError ''Invalid witness.'')"
proof -
  from assms(1) obtain n off h n' off' where
    c: "byte_at s 0 = Inr 2"
    and r1: "read_bitcoin_varint s 1 = Inr (n, off)"
    and hb: "byte_at s (off + n - 1) = Inr h"
    and r2: "read_bitcoin_varint s (off + n) = Inr (n', off')"
    and len: "off' + n' = length s"
    by (auto simp: read_witness_p2wpkh_def Let_def split: sum.splits if_splits)
  have ne: "off' + n' \<noteq> length (s @ t)" using len assms(2) by simp
  show ?thesis
    unfolding read_witness_p2wpkh_def
    by (simp only: byte_at_extend [OF c] read_bitcoin_varint_extend [OF r1] byte_at_extend [OF hb]
        read_bitcoin_varint_extend [OF r2] Let_def sum.case prod.case ne simp_thms if_True if_False)
qed

lemma read_signatures_extend:
  "read_signatures s k off acc = Inr r \<Longrightarrow> read_signatures (s @ t) k off acc = Inr r"
proof (induction k arbitrary: off acc)
  case 0
  then show ?case by simp
next
  case (Suc k)
  from Suc.prems obtain n off' h where
    r1: "read_bitcoin_varint s off = Inr (n, off')"
    and hb: "byte_at s (off' + n - 1) = Inr h"
    and rest: "read_signatures s k (off' + n) (acc @ [(py_slice s off' (off' + n - 1), uint h)]) = Inr r"
    by (auto split: sum.splits)
  have "off' + n - 1 \<le> length s" using byte_at_bound [OF hb] by simp
  then have sl: "py_slice (s @ t) off' (off' + n - 1) = py_slice s off' (off' + n - 1)"
    by (rule py_slice_extend)
  show ?case
    unfolding read_signatures.simps
    by (simp only: read_bitcoin_varint_extend [OF r1] byte_at_extend [OF hb] sl
        sum.case prod.case Suc.IH [OF rest])
qed

lemma p2wsh_trailing:
  assumes "read_witness_p2wsh s = Inr r" "t \<noteq> []"
  shows "read_witness_p2wsh (s @ t) = Inl (DataError ''Invalid witness.'')"
proof -
  from assms(1) obtain item_count off off1 sigs n off2 where
    r1: "read_bitcoin_varint s 0 = Inr (item_count, off)"
    and z: "byte_at s off = Inr 0"
    and l: "read_signatures s (item_count - 2) (off + 1) [] = Inr (off1, sigs)"
    and r2: "read_bitcoin_varint s off1 = Inr (n, off2)"
    and len: "off2 + n = length s"
    by (auto simp: read_witness_p2wsh_def split: sum.splits if_splits)
  have ne: "off2 + n \<noteq> length (s @ t)" using len assms(2) by simp
  show ?thesis
    unfolding read_witness_p2wsh_def
    by (simp only: read_bitcoin_varint_extend [OF r1] byte_at_extend [OF z]
        read_signatures_extend [OF l] read_bitcoin_varint_extend [OF r2]
        sum.case prod.case ne simp_thms if_True if_False)
qed

text \<open>The loop over the public keys: its offset grows, it splits, and it extends.\<close>

lemma read_pubkeys_mono:
  "read_pubkeys s k off acc = Inr (off1, r) \<Longrightarrow> off \<le> off1"
proof (induction k arbitrary: off acc)
  case 0
  then show ?case by simp
next
  case (Suc k)
  from Suc.prems obtain off' where
    r1: "read_op_push s off = Inr (33, off')"
    and rest: "read_pubkeys s k (off' + 33) (acc @ [py_slice s off' (off' + 33)]) = Inr (off1, r)"
    by (auto split: sum.splits if_splits)
  from read_op_push_bounds [OF r1] Suc.IH [OF rest] show ?case by simp
qed

lemma read_pubkeys_add:
  "read_pubkeys s (a + b) off acc =
     (case read_pubkeys s a off acc of
        Inl e \<Rightarrow> Inl e
      | Inr (off1, acc1) \<Rightarrow> read_pubkeys s b off1 acc1)"
  by (induction a arbitrary: off acc) (auto split: sum.splits)

lemma read_pubkeys_extend:
  "read_pubkeys s k off acc = Inr (off1, r) \<Longrightarrow> off1 \<le> length s \<Longrightarrow>
   read_pubkeys (s @ t) k off acc = Inr (off1, r)"
proof (induction k arbitrary: off acc)
  case 0
  then show ?case by simp
next
  case (Suc k)
  from Suc.prems(1) obtain off' where
    r1: "read_op_push s off = Inr (33, off')"
    and rest: "read_pubkeys s k (off' + 33) (acc @ [py_slice s off' (off' + 33)]) = Inr (off1, r)"
    by (auto split: sum.splits if_splits)
  from read_pubkeys_mono [OF rest] Suc.prems(2) have "off' + 33 \<le> length s" by simp
  then have sl: "py_slice (s @ t) off' (off' + 33) = py_slice s off' (off' + 33)"
    by (rule py_slice_extend)
  show ?case
    unfolding read_pubkeys.simps
    by (simp only: read_op_push_extend [OF r1] sl sum.case prod.case simp_thms if_False
        Suc.IH [OF rest Suc.prems(2)])
qed

text \<open>The byte that counts the keys is no push opcode.\<close>

lemma read_op_push_opcode:
  assumes "byte_at u off = Inr b" "0x51 \<le> b"
  shows "read_op_push u off = Inl (DataError ''Invalid OP_PUSH'')"
proof -
  from assms(2) have "81 \<le> unat b" by (simp add: word_le_nat_alt)
  then have "\<not> b < 0x4C" "b \<noteq> 0x4C" "b \<noteq> 0x4D" "b \<noteq> 0x4E"
    by (auto simp: word_less_nat_alt)
  with assms(1) show ?thesis by (simp add: read_op_push_def)
qed

lemma output_multisig_trailing:
  assumes "read_output_script_multisig s = Inr r" "t \<noteq> []"
  shows "\<exists>msg. read_output_script_multisig (s @ t) = Inl (DataError msg)"
proof -
  from assms(1) obtain b off pks where
    i2: "py_index s (- 2) = Inr b" and rb: "0x51 \<le> b"
    and loop: "read_pubkeys s (nat (uint b - 0x50)) 1 [] = Inr (off, pks)"
    and len: "off + 2 = length s"
    by (auto simp: read_output_script_multisig_def Let_def split: sum.splits if_splits)
  define k where "k = nat (uint b - 0x50)"
  define u where "u = s @ t"
  have tpos: "0 < length t" using assms(2) by simp
  have "py_index s (- 2) = Inr (s ! off)"
    using len [symmetric] by (simp add: py_index_def)
  with i2 have sb: "s ! off = b" by simp
  then have bo: "byte_at u off = Inr b"
    using len [symmetric] by (simp add: byte_at_def nth_append u_def)
  have stop: "read_op_push u off = Inl (DataError ''Invalid OP_PUSH'')"
    by (rule read_op_push_opcode [OF bo rb])
  have all: "read_pubkeys u k' 1 [] = Inl (DataError ''Invalid OP_PUSH'')
      \<or> (\<exists>off1 r1. read_pubkeys u k' 1 [] = Inr (off1, r1) \<and> off1 + 2 \<noteq> length u)"
    for k'
  proof (cases "k' \<le> k")
    case True
    then have "k = k' + (k - k')" by simp
    then have "read_pubkeys s k 1 [] = (case read_pubkeys s k' 1 [] of
        Inl e \<Rightarrow> Inl e
      | Inr (off1, acc1) \<Rightarrow> read_pubkeys s (k - k') off1 acc1)"
      using read_pubkeys_add [of s k' "k - k'" 1 "[]"] by simp
    with loop have "(case read_pubkeys s k' 1 [] of
        Inl e \<Rightarrow> Inl e
      | Inr (off1, acc1) \<Rightarrow> read_pubkeys s (k - k') off1 acc1) = Inr (off, pks)"
      by (simp add: k_def)
    then obtain off1 r1 where
      first: "read_pubkeys s k' 1 [] = Inr (off1, r1)"
      and second: "read_pubkeys s (k - k') off1 r1 = Inr (off, pks)"
      by (cases "read_pubkeys s k' 1 []") auto
    from read_pubkeys_mono [OF second] len have le: "off1 \<le> length s" "off1 \<le> off" by simp_all
    from read_pubkeys_extend [OF first le(1)]
    have "read_pubkeys u k' 1 [] = Inr (off1, r1)" by (simp add: u_def)
    moreover have "off1 + 2 \<noteq> length u"
      using le(2) len tpos unfolding u_def length_append by linarith
    ultimately show ?thesis by blast
  next
    case False
    then have "k' = k + Suc (k' - k - 1)" by simp
    then obtain j where k': "k' = k + Suc j" ..
    from len have "off \<le> length s" by simp
    with loop have "read_pubkeys u k 1 [] = Inr (off, pks)"
      unfolding k_def [symmetric] u_def by (rule read_pubkeys_extend)
    then have "read_pubkeys u k' 1 [] = Inl (DataError ''Invalid OP_PUSH'')"
      unfolding k' read_pubkeys_add by (simp add: stop)
    then show ?thesis by blast
  qed
  from len tpos have lu: "3 \<le> length u" unfolding u_def length_append by linarith
  then have "\<exists>x. py_index u (- 1) = Inr x" "\<exists>a. py_index u 0 = Inr a"
    "\<exists>c. py_index u (- 2) = Inr c"
    by (auto simp: py_index_def)
  then obtain x a c where ix: "py_index u (- 1) = Inr x" and ia: "py_index u 0 = Inr a"
    and ic: "py_index u (- 2) = Inr c" by blast
  define k' where "k' = nat (uint c - 0x50)"
  from all [of k'] have "\<exists>msg. read_output_script_multisig u = Inl (DataError msg)"
  proof
    assume e: "read_pubkeys u k' 1 [] = Inl (DataError ''Invalid OP_PUSH'')"
    show ?thesis
      unfolding read_output_script_multisig_def Let_def
      using e by (simp add: ix ia ic k'_def [symmetric])
  next
    assume "\<exists>off1 r1. read_pubkeys u k' 1 [] = Inr (off1, r1) \<and> off1 + 2 \<noteq> length u"
    then obtain off1 r1 where e: "read_pubkeys u k' 1 [] = Inr (off1, r1)"
      and ne: "off1 + 2 \<noteq> length u" by blast
    show ?thesis
      unfolding read_output_script_multisig_def Let_def
      using e ne by (simp add: ix ia ic k'_def [symmetric])
  qed
  then show ?thesis by (simp add: u_def)
qed

text \<open>The redeem script that the scriptSig parser returns is the tail of the buffer.\<close>

lemma read_input_script_multisig_tail:
  assumes "read_input_script_multisig s = Inr (script, signatures)"
  shows "length script \<le> length s \<and> script = drop (length s - length script) s"
proof -
  from assms obtain n off where len: "off + n = length s"
    and sc: "script = py_slice s off (off + n)"
    by (auto simp: read_input_script_multisig_def split: sum.splits if_splits)
  from len have "script = drop off s" "length (drop off s) = n"
    by (simp_all add: sc py_slice_def)
  with len show ?thesis by auto
qed

text \<open>The five parsers on small accepted inputs.\<close>

lemma read_input_script_p2pkh_example:
  "read_input_script_p2pkh [0x01, 0x01, 0x01, 0x02] = Inr ([[0x02]], [([], 1)])"
  by (simp add: read_input_script_p2pkh_def read_op_push_def byte_at_def py_slice_def)

lemma read_witness_p2wpkh_example:
  "read_witness_p2wpkh [0x02, 0x01, 0x01, 0x01, 0x02] = Inr ([[0x02]], [([], 1)])"
  by (simp add: read_witness_p2wpkh_def read_bitcoin_varint_def byte_at_def py_slice_def)

lemma read_witness_p2wsh_example:
  "read_witness_p2wsh [0x02, 0x00, 0x02, 0x51, 0xAE] = Inr ([0x51, 0xAE], [])"
  by (simp add: read_witness_p2wsh_def read_bitcoin_varint_def byte_at_def py_slice_def)

lemma read_output_script_multisig_example:
  "read_output_script_multisig ([0x51, 0x21, 0x02] @ replicate 32 0xAA @ [0x51, 0xAE])
     = Inr ([0x02 # replicate 32 0xAA], 1)"
proof -
  have loop: "read_pubkeys ([0x51] @ concat (map (\<lambda>pk. 0x21 # pk) [0x02 # replicate 32 0xAA]) @ [0x51, 0xAE])
      (length [0x02 # replicate 32 (0xAA :: byte)]) (length [0x51 :: byte]) []
     = Inr (length [0x51 :: byte] + length [0x02 # replicate 32 (0xAA :: byte)] * 34,
            [] @ [0x02 # replicate 32 0xAA])"
    by (rule read_pubkeys_pushes) simp
  have i1: "py_index ([0x51, 0x21, 0x02] @ replicate 32 0xAA @ [0x51, 0xAE :: byte]) (- 1) = Inr 0xAE"
    using py_index_last [of "[0x51, 0x21, 0x02] @ replicate 32 0xAA @ [0x51 :: byte]" "0xAE"] by simp
  have i2: "py_index ([0x51, 0x21, 0x02] @ replicate 32 0xAA @ [0x51, 0xAE :: byte]) (- 2) = Inr 0x51"
    using py_index_last2 [of "[0x51, 0x21, 0x02] @ replicate 32 (0xAA :: byte)" "0x51" "0xAE"] by simp
  show ?thesis
    using loop i1 i2
    by (simp add: read_output_script_multisig_def py_index_first Let_def)
qed

lemma read_input_script_multisig_example:
  "read_input_script_multisig [0x00, 0x01, 0xAA] = Inr ([0xAA], [])"
  by (simp add: read_input_script_multisig_def read_op_push_def byte_at_def py_slice_def)

lemma read_input_script_multisig_overrun_example:
  "byte_at [0x00, 0x05, 0xAA] 0 = Inr 0x00
   \<and> read_pushes [0x00, 0x05, 0xAA] 1 [] = Inr (5, 2, [])"
  by (simp add: read_op_push_def byte_at_def)

text \<open>
  C4: every parser compares the end of what it has read with the length of the buffer
  and raises a DataError when they differ. An input that \<open>read_input_script_p2pkh\<close>,
  \<open>read_witness_p2wpkh\<close>, \<open>read_witness_p2wsh\<close> or \<open>read_output_script_multisig\<close>
  accepts, followed by one or more bytes, is rejected with a DataError.
  \<open>read_input_script_multisig\<close>, whose input does not say how many pushes it holds, reads
  pushes until one reaches the end of the buffer: it raises the DataError when that push
  does not end exactly there, and whenever it returns, the redeem script it returns is
  the tail of the buffer, so that no byte is left behind it.
\<close>

theorem trailing_bytes_rejected:
  "(trailing \<noteq> [] \<and> read_input_script_p2pkh buffer = Inr r1 \<longrightarrow>
        read_input_script_p2pkh (buffer @ trailing) = Inl (DataError ''Invalid scriptSig.''))
   \<and> (trailing \<noteq> [] \<and> read_witness_p2wpkh buffer = Inr r2 \<longrightarrow>
        read_witness_p2wpkh (buffer @ trailing) = Inl (DataError ''Invalid witness.''))
   \<and> (trailing \<noteq> [] \<and> read_witness_p2wsh buffer = Inr r3 \<longrightarrow>
        read_witness_p2wsh (buffer @ trailing) = Inl (DataError ''Invalid witness.''))
   \<and> (trailing \<noteq> [] \<and> read_output_script_multisig buffer = Inr r4 \<longrightarrow>
        (\<exists>msg. read_output_script_multisig (buffer @ trailing) = Inl (DataError msg)))
   \<and> (byte_at buffer 0 = Inr 0x00 \<and> read_pushes buffer 1 [] = Inr (n, offset, sigs)
        \<and> offset + n \<noteq> length buffer \<longrightarrow>
        read_input_script_multisig buffer = Inl (DataError ''Invalid scriptSig.''))
   \<and> (read_input_script_multisig buffer = Inr (script, signatures) \<longrightarrow>
        length script \<le> length buffer
        \<and> script = drop (length buffer - length script) buffer)"
proof (intro conjI impI)
  assume "trailing \<noteq> [] \<and> read_input_script_p2pkh buffer = Inr r1"
  then show "read_input_script_p2pkh (buffer @ trailing) = Inl (DataError ''Invalid scriptSig.'')"
    using p2pkh_trailing by blast
next
  assume "trailing \<noteq> [] \<and> read_witness_p2wpkh buffer = Inr r2"
  then show "read_witness_p2wpkh (buffer @ trailing) = Inl (DataError ''Invalid witness.'')"
    using p2wpkh_trailing by blast
next
  assume "trailing \<noteq> [] \<and> read_witness_p2wsh buffer = Inr r3"
  then show "read_witness_p2wsh (buffer @ trailing) = Inl (DataError ''Invalid witness.'')"
    using p2wsh_trailing by blast
next
  assume "trailing \<noteq> [] \<and> read_output_script_multisig buffer = Inr r4"
  then show "\<exists>msg. read_output_script_multisig (buffer @ trailing) = Inl (DataError msg)"
    using output_multisig_trailing by blast
next
  assume "byte_at buffer 0 = Inr 0x00 \<and> read_pushes buffer 1 [] = Inr (n, offset, sigs)
        \<and> offset + n \<noteq> length buffer"
  then show "read_input_script_multisig buffer = Inl (DataError ''Invalid scriptSig.'')"
    by (simp add: read_input_script_multisig_def)
next
  assume a: "read_input_script_multisig buffer = Inr (script, signatures)"
  from read_input_script_multisig_tail [OF a]
  show "length script \<le> length buffer"
    and "script = drop (length buffer - length script) buffer"
    by simp_all
qed

theorem trailing_bytes_rejected_witness:
  "read_input_script_p2pkh ([0x01, 0x01, 0x01, 0x02] @ [0xFF]) = Inl (DataError ''Invalid scriptSig.'')
   \<and> read_witness_p2wpkh ([0x02, 0x01, 0x01, 0x01, 0x02] @ [0xFF]) = Inl (DataError ''Invalid witness.'')
   \<and> read_witness_p2wsh ([0x02, 0x00, 0x02, 0x51, 0xAE] @ [0xFF]) = Inl (DataError ''Invalid witness.'')
   \<and> (\<exists>msg. read_output_script_multisig
              (([0x51, 0x21, 0x02] @ replicate 32 0xAA @ [0x51, 0xAE]) @ [0xAE])
            = Inl (DataError msg))
   \<and> read_input_script_multisig [0x00, 0x05, 0xAA] = Inl (DataError ''Invalid scriptSig.'')
   \<and> read_input_script_multisig [0x00, 0x01, 0xAA] = Inr ([0xAA], [])
   \<and> [0xAA :: byte] = drop (length [0x00, 0x01, 0xAA :: byte] - length [0xAA :: byte]) [0x00, 0x01, 0xAA]"
proof -
  note a = trailing_bytes_rejected [where trailing = "[0xFF]" and buffer = "[0x01, 0x01, 0x01, 0x02]"
      and ?r1.0 = "([[0x02]], [([], 1)])"]
  note b = trailing_bytes_rejected [where trailing = "[0xFF]" and buffer = "[0x02, 0x01, 0x01, 0x01, 0x02]"
      and ?r2.0 = "([[0x02]], [([], 1)])"]
  note c = trailing_bytes_rejected [where trailing = "[0xFF]" and buffer = "[0x02, 0x00, 0x02, 0x51, 0xAE]"
      and ?r3.0 = "([0x51, 0xAE], [])"]
  note d = trailing_bytes_rejected [where trailing = "[0xAE]"
      and buffer = "[0x51, 0x21, 0x02] @ replicate 32 0xAA @ [0x51, 0xAE]"
      and ?r4.0 = "([0x02 # replicate 32 0xAA], 1)"]
  note e = trailing_bytes_rejected [where buffer = "[0x00, 0x05, 0xAA]"
      and n = 5 and offset = 2 and sigs = "[]"]
  note f = trailing_bytes_rejected [where buffer = "[0x00, 0x01, 0xAA]"
      and script = "[0xAA]" and signatures = "[]"]
  have 1: "read_input_script_p2pkh ([0x01, 0x01, 0x01, 0x02] @ [0xFF])
      = Inl (DataError ''Invalid scriptSig.'')"
    using a read_input_script_p2pkh_example by simp
  have 2: "read_witness_p2wpkh ([0x02, 0x01, 0x01, 0x01, 0x02] @ [0xFF])
      = Inl (DataError ''Invalid witness.'')"
    using b read_witness_p2wpkh_example by simp
  have 3: "read_witness_p2wsh ([0x02, 0x00, 0x02, 0x51, 0xAE] @ [0xFF])
      = Inl (DataError ''Invalid witness.'')"
    using c read_witness_p2wsh_example by simp
  have 4: "\<exists>msg. read_output_script_multisig
              (([0x51, 0x21, 0x02] @ replicate 32 0xAA @ [0x51, 0xAE]) @ [0xAE])
            = Inl (DataError msg)"
    using d read_output_script_multisig_example by simp
  have 5: "read_input_script_multisig [0x00, 0x05, 0xAA] = Inl (DataError ''Invalid scriptSig.'')"
    using e read_input_script_multisig_overrun_example by simp
  have 6: "[0xAA :: byte]
      = drop (length [0x00, 0x01, 0xAA :: byte] - length [0xAA :: byte]) [0x00, 0x01, 0xAA]"
    using f read_input_script_multisig_example by simp
  from 1 2 3 4 5 6 read_input_script_multisig_example show ?thesis by simp
qed

end
